theory Spec2Isabelle
  imports
    Complex_Main
    "HOL-Library.Multiset"
    "HOL-Library.Char_ord"
    "HOL-Library.List_Lexorder"
begin

section \<open>JavaScript values\<close>

text \<open>
  The loader (\<^verbatim>\<open>data-loader.js\<close>, class \<^verbatim>\<open>DataLoader\<close>) and the two variants of the
  application (\<^verbatim>\<open>src/app.js\<close> and \<^verbatim>\<open>src/application/app.js\<close>, class
  \<^verbatim>\<open>EVRangePredictor\<close>) are embedded as functions over explicit state.

  A JavaScript number is \<open>NaN\<close>, one of the two infinities, the negative zero, or a real
  number (\<open>Fin 0\<close> is the positive zero); the doubles are among these values.  A value
  stored in a row or in the user input is \<^verbatim>\<open>undefined\<close>, \<^verbatim>\<open>null\<close>, a number or a string.
\<close>

datatype jsnum = NaN | PInf | NInf | NegZero | Fin real

datatype jsval = Undefined | Null | Num jsnum | Str string

text \<open>
  The arithmetic of the doubles and the conversions between text and numbers are
  built-ins of the language, not code of the repository; they are parameters of the
  model, so that nothing below depends on how a result is rounded, when it overflows to
  an infinity, or what a division by zero gives:
  \<^item> \<open>numAdd\<close>, \<open>numSub\<close>, \<open>numDiv\<close>: the operators \<^verbatim>\<open>+\<close>, \<^verbatim>\<open>-\<close> and \<^verbatim>\<open>/\<close> on two numbers;
  \<^item> \<open>numPow2\<close>, \<open>numSqrt\<close>, \<open>numRound\<close>: \<^verbatim>\<open>Math.pow(x, 2)\<close>, \<^verbatim>\<open>Math.sqrt(x)\<close> and
    \<^verbatim>\<open>Math.round(x)\<close>;
  \<^item> \<open>strToNumber\<close>: \<^verbatim>\<open>Number(s)\<close> on a string, the conversion behind \<^verbatim>\<open>isNaN(s)\<close> and
    behind the arithmetic operators;
  \<^item> \<open>parseFloat\<close>, \<open>parseInt\<close>: the global functions of these names;
  \<^item> \<open>numToString\<close>: \<^verbatim>\<open>String(n)\<close> on a number, used by \<^verbatim>\<open>+\<close> with a string operand and
    by the default comparison of \<^verbatim>\<open>Array.prototype.sort\<close>;
  \<^item> \<open>trim\<close>: \<^verbatim>\<open>String.prototype.trim\<close>.
\<close>

record host =
  numAdd :: "jsnum \<Rightarrow> jsnum \<Rightarrow> jsnum"
  numSub :: "jsnum \<Rightarrow> jsnum \<Rightarrow> jsnum"
  numDiv :: "jsnum \<Rightarrow> jsnum \<Rightarrow> jsnum"
  numPow2 :: "jsnum \<Rightarrow> jsnum"
  numSqrt :: "jsnum \<Rightarrow> jsnum"
  numRound :: "jsnum \<Rightarrow> jsnum"
  strToNumber :: "string \<Rightarrow> jsnum"
  parseFloat :: "string \<Rightarrow> jsnum"
  parseInt :: "string \<Rightarrow> jsnum"
  numToString :: "jsnum \<Rightarrow> string"
  trim :: "string \<Rightarrow> string"

subsection \<open>Coercions and operators\<close>

text \<open>\<^verbatim>\<open>ToNumber\<close>, \<^verbatim>\<open>ToString\<close>, the global \<^verbatim>\<open>isNaN\<close>, and the operators \<^verbatim>\<open>+\<close>, \<^verbatim>\<open>-\<close> and
  \<^verbatim>\<open>===\<close> on the values above.\<close>

fun toNumber :: "host \<Rightarrow> jsval \<Rightarrow> jsnum" where
  "toNumber H Undefined = NaN"
| "toNumber H Null = Fin 0"
| "toNumber H (Num n) = n"
| "toNumber H (Str s) = strToNumber H s"

fun toString :: "host \<Rightarrow> jsval \<Rightarrow> string" where
  "toString H Undefined = ''undefined''"
| "toString H Null = ''null''"
| "toString H (Num n) = numToString H n"
| "toString H (Str s) = s"

definition isNaN :: "host \<Rightarrow> jsval \<Rightarrow> bool" where
  "isNaN H v = (toNumber H v = NaN)"

fun isStr :: "jsval \<Rightarrow> bool" where
  "isStr (Str s) = True"
| "isStr _ = False"

definition js_plus :: "host \<Rightarrow> jsval \<Rightarrow> jsval \<Rightarrow> jsval" where
  "js_plus H a b =
     (if isStr a \<or> isStr b then Str (toString H a @ toString H b)
      else Num (numAdd H (toNumber H a) (toNumber H b)))"

definition js_minus :: "host \<Rightarrow> jsval \<Rightarrow> jsval \<Rightarrow> jsnum" where
  "js_minus H a b = numSub H (toNumber H a) (toNumber H b)"

text \<open>\<^verbatim>\<open>n === 0\<close> on a number: true of both zeros.\<close>

definition isZero :: "jsnum \<Rightarrow> bool" where
  "isZero n = (n = Fin 0 \<or> n = NegZero)"

text \<open>Strict equality: \<open>NaN\<close> is not equal to itself, the two zeros are equal, values of
  different types differ.\<close>

fun strictEq :: "jsval \<Rightarrow> jsval \<Rightarrow> bool" where
  "strictEq (Num x) (Num y) = (x \<noteq> NaN \<and> (x = y \<or> (isZero x \<and> isZero y)))"
| "strictEq a b = (a = b)"

section \<open>The train/test split\<close>

text \<open>
  \<^verbatim>\<open>shuffleIndices(length)\<close>: the indices \<open>0, \<dots>, length - 1\<close>, then for \<open>i\<close> from
  \<open>length - 1\<close> down to 1 the entries at \<open>i\<close> and at
  \<open>j = Math.floor(Math.random() * (i + 1))\<close> are exchanged.  The successive results of
  \<^verbatim>\<open>Math.random()\<close> are the values \<open>rnd 0\<close>, \<open>rnd 1\<close>, \<dots> of a parameter; the language
  promises \<open>0 \<le> rnd k < 1\<close>, and only under that promise is \<open>j\<close> an index of the array.
\<close>

definition randomIndex :: "real \<Rightarrow> nat \<Rightarrow> nat" where
  "randomIndex r i = nat \<lfloor>r * real (i + 1)\<rfloor>"

definition swap :: "nat list \<Rightarrow> nat \<Rightarrow> nat \<Rightarrow> nat list" where
  "swap indices i j = indices[i := indices ! j, j := indices ! i]"

fun shuffleLoop :: "(nat \<Rightarrow> real) \<Rightarrow> nat \<Rightarrow> nat \<Rightarrow> nat list \<Rightarrow> nat list" where
  "shuffleLoop rnd c 0 indices = indices"
| "shuffleLoop rnd c (Suc i) indices =
     shuffleLoop rnd (Suc c) i (swap indices (Suc i) (randomIndex (rnd c) (Suc i)))"

definition shuffleIndices :: "(nat \<Rightarrow> real) \<Rightarrow> nat \<Rightarrow> nat list" where
  "shuffleIndices rnd len = shuffleLoop rnd 0 (len - 1) [0..<len]"

text \<open>
  The split of \<^verbatim>\<open>preprocessData\<close>: \<open>splitIndex = Math.floor(n * 0.8)\<close>, the error when a
  side would be empty, then the two slices of the shuffled indices.
\<close>

datatype error =
    CsvTooShort
  | NoDataLoaded
  | MissingColumns "string list"
  | NoValidSamples
  | NoUniqueValues string
  | InconsistentShapes
  | DatasetTooSmall
  | NotFitted
  | TypeError
  | ModelNotBuilt
  | InvalidInput string
  | InvalidTrainingData
  | InvalidTestData
  | ShapeMismatch
  | LibraryError string

definition splitIndex :: "nat \<Rightarrow> nat" where
  "splitIndex n = nat \<lfloor>real n * 0.8\<rfloor>"

definition trainTestSplit :: "(nat \<Rightarrow> real) \<Rightarrow> nat \<Rightarrow> error + (nat list \<times> nat list)" where
  "trainTestSplit rnd n =
     (if splitIndex n < 1 \<or> n - splitIndex n < 1 then Inl DatasetTooSmall
      else let shuffledIndices = shuffleIndices rnd n
           in Inr (take (splitIndex n) shuffledIndices, drop (splitIndex n) shuffledIndices))"

section \<open>The loader\<close>

text \<open>
  A row is a JavaScript object: a finite map from column names to values.  \<open>cell r f\<close>
  is \<^verbatim>\<open>r[f]\<close>, which is \<^verbatim>\<open>undefined\<close> for an absent key.
\<close>

type_synonym row = "string \<rightharpoonup> jsval"

definition cell :: "row \<Rightarrow> string \<Rightarrow> jsval" where
  "cell r f = (case r f of None \<Rightarrow> Undefined | Some v \<Rightarrow> v)"

record featureStat =
  mean :: jsnum
  std :: jsnum

record processed =
  trainFeatures :: "jsnum list list"
  trainTargets :: "jsval list"
  testFeatures :: "jsnum list list"
  testTargets :: "jsval list"
  inputShape :: nat

record loader =
  rawData :: "row list option"
  processedData :: "processed option"
  featureStats :: "(string \<rightharpoonup> featureStat) option"
  categoricalMappings :: "(string \<rightharpoonup> jsval list) option"

definition numericalFeatures :: "string list" where
  "numericalFeatures =
     [''top_speed_kmh'', ''battery_capacity_kWh'', ''torque_nm'',
      ''acceleration_0_100_s'', ''fast_charging_power_kw_dc'', ''seats'',
      ''length_mm'', ''width_mm'', ''height_mm'']"

definition categoricalFeatures :: "string list" where
  "categoricalFeatures = [''fast_charge_port'', ''drivetrain'']"

definition targetColumn :: string where
  "targetColumn = ''range_km''"

subsection \<open>\<^verbatim>\<open>parseCSV\<close>\<close>

text \<open>
  \<^verbatim>\<open>s.split(sep)\<close> for a one-character separator: never empty, \<open>[[]]\<close> on the empty
  string.  \<open>splitStep sep c pieces\<close> puts the character \<open>c\<close> in front of the pieces of
  the rest of the string: a separator opens a new piece, another character joins the
  first piece.
\<close>

fun splitStep :: "char \<Rightarrow> char \<Rightarrow> string list \<Rightarrow> string list" where
  "splitStep sep c [] = (if c = sep then [[], []] else [[c]])"
| "splitStep sep c (w # ws) = (if c = sep then [] # w # ws else (c # w) # ws)"

fun splitOn :: "char \<Rightarrow> string \<Rightarrow> string list" where
  "splitOn sep [] = [[]]"
| "splitOn sep (c # cs) = splitStep sep c (splitOn sep cs)"

text \<open>\<^verbatim>\<open>isNaN(value) ? value : parseFloat(value)\<close> on the trimmed text of a cell.\<close>

definition coerce :: "host \<Rightarrow> string \<Rightarrow> jsval" where
  "coerce H v = (if isNaN H (Str v) then Str v else Num (parseFloat H v))"

text \<open>The \<^verbatim>\<open>forEach\<close> over the headers: a later column of the same name overwrites an
  earlier one.\<close>

definition mkRow :: "host \<Rightarrow> string list \<Rightarrow> string list \<Rightarrow> row" where
  "mkRow H headers vals = fold (\<lambda>(header, v) r. r(header \<mapsto> coerce H v)) (zip headers vals) Map.empty"

fun parseLines :: "host \<Rightarrow> string list \<Rightarrow> string list \<Rightarrow> row list" where
  "parseLines H headers [] = []"
| "parseLines H headers (l # ls) =
     (let vals = map (trim H) (splitOn CHR '','' l)
      in if length vals \<noteq> length headers then parseLines H headers ls
         else mkRow H headers vals # parseLines H headers ls)"

definition parseCSV :: "host \<Rightarrow> string \<Rightarrow> error + row list" where
  "parseCSV H csvText =
     (let lines = splitOn CHR 0x0A (trim H csvText)
      in if length lines < 2 then Inl CsvTooShort
         else let headers = map (trim H) (splitOn CHR '','' (hd lines))
              in Inr (parseLines H headers (tl lines)))"

subsection \<open>\<^verbatim>\<open>preprocessData\<close>: filtering\<close>

definition missingColumns :: "row \<Rightarrow> string list" where
  "missingColumns sampleRow =
     filter (\<lambda>col. sampleRow col = None) (numericalFeatures @ categoricalFeatures @ [targetColumn])"

definition hasAllFeatures :: "host \<Rightarrow> row \<Rightarrow> bool" where
  "hasAllFeatures H r =
     (list_all (\<lambda>f. cell r f \<noteq> Undefined \<and> cell r f \<noteq> Null \<and> \<not> isNaN H (cell r f)) numericalFeatures
      \<and> list_all (\<lambda>f. cell r f \<noteq> Undefined \<and> cell r f \<noteq> Null) categoricalFeatures)"

text \<open>The rows pushed to \<^verbatim>\<open>features\<close>: the target is neither \<^verbatim>\<open>undefined\<close> nor \<^verbatim>\<open>null\<close>, and
  the row has all features.\<close>

definition validRows :: "host \<Rightarrow> row list \<Rightarrow> row list" where
  "validRows H raw =
     filter (\<lambda>r. \<not> (cell r targetColumn = Undefined \<or> cell r targetColumn = Null) \<and> hasAllFeatures H r) raw"

subsection \<open>\<^verbatim>\<open>preprocessData\<close>: categorical mappings\<close>

text \<open>
  \<^verbatim>\<open>[...new Set(xs)]\<close> keeps the first occurrence of each value, in order of insertion (a
  \<^verbatim>\<open>Set\<close> holds \<open>NaN\<close> once, and stores the negative zero as the positive one).
  \<^verbatim>\<open>sort()\<close> without a comparison function moves \<^verbatim>\<open>undefined\<close> to the end and orders the
  other values by their strings, compared by code units, keeping the order of values
  whose strings are equal.
\<close>

definition setValue :: "jsval \<Rightarrow> jsval" where
  "setValue v = (if v = Num NegZero then Num (Fin 0) else v)"

definition setOrder :: "jsval list \<Rightarrow> jsval list" where
  "setOrder xs = rev (remdups (rev (map setValue xs)))"

definition jsSort :: "host \<Rightarrow> jsval list \<Rightarrow> jsval list" where
  "jsSort H xs =
     sort_key (toString H) (filter (\<lambda>v. v \<noteq> Undefined) xs) @ filter (\<lambda>v. v = Undefined) xs"

definition uniqueValues :: "host \<Rightarrow> row list \<Rightarrow> string \<Rightarrow> jsval list" where
  "uniqueValues H features feature = jsSort H (setOrder (map (\<lambda>f. cell f feature) features))"

definition categoricalMapping :: "host \<Rightarrow> row list \<Rightarrow> string \<Rightarrow> error + jsval list" where
  "categoricalMapping H features feature =
     (if length (uniqueValues H features feature) = 0 then Inl (NoUniqueValues feature)
      else Inr (uniqueValues H features feature))"

text \<open>The loop over the categorical features fills \<^verbatim>\<open>this.categoricalMappings\<close> and stops
  at the first error, leaving the entries made so far.\<close>

fun buildCategoricalMappings ::
  "host \<Rightarrow> row list \<Rightarrow> string list \<Rightarrow> (string \<rightharpoonup> jsval list) \<Rightarrow> error option \<times> (string \<rightharpoonup> jsval list)" where
  "buildCategoricalMappings H features [] m = (None, m)"
| "buildCategoricalMappings H features (f # fs) m =
     (case categoricalMapping H features f of
        Inl e \<Rightarrow> (Some e, m)
      | Inr u \<Rightarrow> buildCategoricalMappings H features fs (m(f \<mapsto> u)))"

subsection \<open>\<^verbatim>\<open>preprocessData\<close>: statistics\<close>

text \<open>
  For one feature, over the column \<open>vals\<close> of all the rows of \<^verbatim>\<open>features\<close>:
  \<^verbatim>\<open>values.reduce((a, b) => a + b, 0) / values.length\<close>, then
  \<^verbatim>\<open>values.reduce((a, b) => a + Math.pow(b - mean, 2), 0) / values.length\<close>, its square
  root, and 1 in place of a root that is \<^verbatim>\<open>=== 0\<close>.
\<close>

definition columnMean :: "host \<Rightarrow> jsval list \<Rightarrow> jsnum" where
  "columnMean H vals =
     numDiv H (toNumber H (foldl (js_plus H) (Num (Fin 0)) vals)) (Fin (real (length vals)))"

definition columnVariance :: "host \<Rightarrow> jsval list \<Rightarrow> jsnum" where
  "columnVariance H vals =
     numDiv H
       (foldl (\<lambda>a b. numAdd H a (numPow2 H (js_minus H b (Num (columnMean H vals))))) (Fin 0) vals)
       (Fin (real (length vals)))"

definition columnStat :: "host \<Rightarrow> jsval list \<Rightarrow> featureStat" where
  "columnStat H vals =
     (let sd = numSqrt H (columnVariance H vals)
      in \<lparr>mean = columnMean H vals, std = (if isZero sd then Fin 1 else sd)\<rparr>)"

definition calcFeatureStats :: "host \<Rightarrow> row list \<Rightarrow> string list \<Rightarrow> (string \<rightharpoonup> featureStat)" where
  "calcFeatureStats H features fs =
     fold (\<lambda>feature st. st(feature \<mapsto> columnStat H (map (\<lambda>f. cell f feature) features))) fs Map.empty"

subsection \<open>\<^verbatim>\<open>transformFeatures\<close>\<close>

text \<open>
  Reading \<^verbatim>\<open>this.featureStats[feature]\<close> or \<^verbatim>\<open>this.categoricalMappings[feature]\<close> raises a
  \<^verbatim>\<open>TypeError\<close> when the table is \<^verbatim>\<open>null\<close> or has no entry for the feature.
\<close>

fun sequence :: "(error + 'a) list \<Rightarrow> error + 'a list" where
  "sequence [] = Inr []"
| "sequence (Inl e # rs) = Inl e"
| "sequence (Inr x # rs) = (case sequence rs of Inl e \<Rightarrow> Inl e | Inr xs \<Rightarrow> Inr (x # xs))"

definition normalized :: "host \<Rightarrow> featureStat \<Rightarrow> jsval \<Rightarrow> jsnum" where
  "normalized H s v = numDiv H (js_minus H v (Num (mean s))) (std s)"

definition oneHot :: "jsval \<Rightarrow> jsval list \<Rightarrow> jsnum list" where
  "oneHot v categories = map (\<lambda>category. if strictEq v category then Fin 1 else Fin 0) categories"

definition numericalPart :: "host \<Rightarrow> loader \<Rightarrow> row \<Rightarrow> string \<Rightarrow> error + jsnum" where
  "numericalPart H L r feature =
     (case featureStats L of
        None \<Rightarrow> Inl TypeError
      | Some st \<Rightarrow>
          (case st feature of
             None \<Rightarrow> Inl TypeError
           | Some s \<Rightarrow> Inr (normalized H s (cell r feature))))"

definition categoricalPart :: "loader \<Rightarrow> row \<Rightarrow> string \<Rightarrow> error + jsnum list" where
  "categoricalPart L r feature =
     (case categoricalMappings L of
        None \<Rightarrow> Inl TypeError
      | Some m \<Rightarrow>
          (case m feature of
             None \<Rightarrow> Inl TypeError
           | Some categories \<Rightarrow> Inr (oneHot (cell r feature) categories)))"

definition transformFeatures ::
  "host \<Rightarrow> loader \<Rightarrow> row \<Rightarrow> string list \<Rightarrow> string list \<Rightarrow> error + jsnum list" where
  "transformFeatures H L r nums cats =
     (case sequence (map (numericalPart H L r) nums) of
        Inl e \<Rightarrow> Inl e
      | Inr ns \<Rightarrow>
          (case sequence (map (categoricalPart L r) cats) of
             Inl e \<Rightarrow> Inl e
           | Inr blocks \<Rightarrow> Inr (ns @ concat blocks)))"

definition transformUserInput :: "host \<Rightarrow> loader \<Rightarrow> row \<Rightarrow> error + jsnum list" where
  "transformUserInput H L userInput =
     (if featureStats L = None \<or> categoricalMappings L = None then Inl NotFitted
      else transformFeatures H L userInput numericalFeatures categoricalFeatures)"

subsection \<open>\<^verbatim>\<open>preprocessData\<close>\<close>

text \<open>
  The result and the loader afterwards: the tables \<^verbatim>\<open>this.categoricalMappings\<close> and
  \<^verbatim>\<open>this.featureStats\<close> are assigned before the later checks, and stay assigned when one
  of those fails.  The messages and the \<^verbatim>\<open>Data preprocessing failed:\<close> prefix of the
  rethrown error are not modelled, only which check failed.
\<close>

definition preprocessData :: "host \<Rightarrow> (nat \<Rightarrow> real) \<Rightarrow> loader \<Rightarrow> (error + processed) \<times> loader" where
  "preprocessData H rnd L =
     (case rawData L of
        None \<Rightarrow> (Inl NoDataLoaded, L)
      | Some raw \<Rightarrow>
          if length raw = 0 then (Inl NoDataLoaded, L)
          else if missingColumns (hd raw) \<noteq> [] then (Inl (MissingColumns (missingColumns (hd raw))), L)
          else
            let features = validRows H raw;
                targets = map (\<lambda>r. cell r targetColumn) features
            in if length features = 0 then (Inl NoValidSamples, L)
               else
                 (case buildCategoricalMappings H features categoricalFeatures Map.empty of
                    (Some e, m) \<Rightarrow> (Inl e, L\<lparr>categoricalMappings := Some m\<rparr>)
                  | (None, m) \<Rightarrow>
                      let L' = L\<lparr>categoricalMappings := Some m,
                                 featureStats := Some (calcFeatureStats H features numericalFeatures)\<rparr>
                      in (case sequence (map (\<lambda>r. transformFeatures H L' r numericalFeatures categoricalFeatures)
                                           features) of
                            Inl e \<Rightarrow> (Inl e, L')
                          | Inr transformedFeatures \<Rightarrow>
                              if filter (\<lambda>f. length f \<noteq> length (hd transformedFeatures)) transformedFeatures \<noteq> []
                              then (Inl InconsistentShapes, L')
                              else
                                (case trainTestSplit rnd (length features) of
                                   Inl e \<Rightarrow> (Inl e, L')
                                 | Inr (trainIndices, testIndices) \<Rightarrow>
                                     let pd = \<lparr>trainFeatures = map (\<lambda>i. transformedFeatures ! i) trainIndices,
                                               trainTargets = map (\<lambda>i. targets ! i) trainIndices,
                                               testFeatures = map (\<lambda>i. transformedFeatures ! i) testIndices,
                                               testTargets = map (\<lambda>i. targets ! i) testIndices,
                                               inputShape =
                                                 length (hd (map (\<lambda>i. transformedFeatures ! i) trainIndices))\<rparr>
                                     in (Inr pd, L'\<lparr>processedData := Some pd\<rparr>)))))"

section \<open>Concrete hosts and inputs\<close>

text \<open>A random source that returns the same number at every call, for concrete runs.\<close>

definition fixedRandom :: "real \<Rightarrow> nat \<Rightarrow> real" where
  "fixedRandom r k = r"

text \<open>
  The arithmetic of the reals, extended to the infinities and the two zeros as IEEE 754
  does.  It agrees with the arithmetic of the doubles wherever the exact result of an
  operation on doubles is a double.
\<close>

definition isInf :: "jsnum \<Rightarrow> bool" where
  "isInf n = (n = PInf \<or> n = NInf)"

fun negative :: "jsnum \<Rightarrow> bool" where
  "negative NInf = True"
| "negative NegZero = True"
| "negative (Fin x) = (x < 0)"
| "negative _ = False"

fun realOf :: "jsnum \<Rightarrow> real" where
  "realOf (Fin x) = x"
| "realOf _ = 0"

fun exactNeg :: "jsnum \<Rightarrow> jsnum" where
  "exactNeg NaN = NaN"
| "exactNeg PInf = NInf"
| "exactNeg NInf = PInf"
| "exactNeg NegZero = Fin 0"
| "exactNeg (Fin x) = (if x = 0 then NegZero else Fin (- x))"

definition exactAdd :: "jsnum \<Rightarrow> jsnum \<Rightarrow> jsnum" where
  "exactAdd a b =
     (if a = NaN \<or> b = NaN \<or> (isInf a \<and> isInf b \<and> a \<noteq> b) then NaN
      else if isInf a then a
      else if isInf b then b
      else if a = NegZero then b
      else if b = NegZero then a
      else Fin (realOf a + realOf b))"

definition exactSub :: "jsnum \<Rightarrow> jsnum \<Rightarrow> jsnum" where
  "exactSub a b = exactAdd a (exactNeg b)"

definition exactDiv :: "jsnum \<Rightarrow> jsnum \<Rightarrow> jsnum" where
  "exactDiv a b =
     (if a = NaN \<or> b = NaN \<or> (isInf a \<and> isInf b) \<or> (isZero a \<and> isZero b) then NaN
      else if isInf a \<or> isZero b then (if negative a = negative b then PInf else NInf)
      else if isInf b \<or> isZero a then (if negative a = negative b then Fin 0 else NegZero)
      else Fin (realOf a / realOf b))"

fun exactPow2 :: "jsnum \<Rightarrow> jsnum" where
  "exactPow2 NaN = NaN"
| "exactPow2 PInf = PInf"
| "exactPow2 NInf = PInf"
| "exactPow2 NegZero = Fin 0"
| "exactPow2 (Fin x) = Fin (x\<^sup>2)"

fun exactSqrt :: "jsnum \<Rightarrow> jsnum" where
  "exactSqrt NaN = NaN"
| "exactSqrt PInf = PInf"
| "exactSqrt NInf = NaN"
| "exactSqrt NegZero = NegZero"
| "exactSqrt (Fin x) = (if x < 0 then NaN else Fin (sqrt x))"

fun exactRound :: "jsnum \<Rightarrow> jsnum" where
  "exactRound (Fin x) = (if - 1 / 2 \<le> x \<and> x < 0 then NegZero else Fin (of_int \<lfloor>x + 1 / 2\<rfloor>))"
| "exactRound n = n"

text \<open>
  A host for concrete runs.  Its arithmetic is the one above.  Its conversions agree
  with the language on the texts used below: blank strings, strings of decimal digits
  (with blanks around them), and words that are no numeric literals; and on the strings
  of natural numbers.
\<close>

definition isDigit :: "char \<Rightarrow> bool" where
  "isDigit c = (CHR ''0'' \<le> c \<and> c \<le> CHR ''9'')"

definition isSpace :: "char \<Rightarrow> bool" where
  "isSpace c = (c \<in> set [CHR '' '', CHR 0x09, CHR 0x0A, CHR 0x0B, CHR 0x0C, CHR 0x0D])"

definition digitsValue :: "string \<Rightarrow> nat" where
  "digitsValue s = foldl (\<lambda>n c. 10 * n + (of_char c - 48)) 0 s"

fun digitsOf :: "nat \<Rightarrow> string" where
  "digitsOf n =
     (if n < 10 then [char_of (48 + n)] else digitsOf (n div 10) @ [char_of (48 + n mod 10)])"

definition trimAscii :: "string \<Rightarrow> string" where
  "trimAscii s = rev (dropWhile isSpace (rev (dropWhile isSpace s)))"

definition decimalPrefix :: "string \<Rightarrow> jsnum" where
  "decimalPrefix s =
     (let d = takeWhile isDigit (dropWhile isSpace s)
      in if d = [] then NaN else Fin (real (digitsValue d)))"

definition decimalHost :: host where
  "decimalHost =
     \<lparr>numAdd = exactAdd, numSub = exactSub, numDiv = exactDiv,
      numPow2 = exactPow2, numSqrt = exactSqrt, numRound = exactRound,
      strToNumber = (\<lambda>s. if trimAscii s = [] then Fin 0
                          else if list_all isDigit (trimAscii s) then Fin (real (digitsValue (trimAscii s)))
                          else NaN),
      parseFloat = decimalPrefix,
      parseInt = decimalPrefix,
      numToString = (\<lambda>n. case n of NaN \<Rightarrow> ''NaN'' | PInf \<Rightarrow> ''Infinity'' | NInf \<Rightarrow> ''-Infinity''
                            | NegZero \<Rightarrow> ''0'' | Fin x \<Rightarrow> digitsOf (nat \<lfloor>x\<rfloor>)),
      trim = trimAscii\<rparr>"

definition emptyLoader :: loader where
  "emptyLoader = \<lparr>rawData = None, processedData = None, featureStats = None, categoricalMappings = None\<rparr>"

text \<open>A file with the twelve columns and two rows, and the two rows it parses to.\<close>

definition headerLine :: string where
  "headerLine = ''top_speed_kmh,battery_capacity_kWh,torque_nm,acceleration_0_100_s,fast_charging_power_kw_dc,fast_charge_port,seats,drivetrain,length_mm,width_mm,height_mm,range_km''"

definition twoRowCsv :: string where
  "twoRowCsv = headerLine @ [CHR 0x0A] @ ''150,60,310,7,100,CCS,5,RWD,4500,1850,1550,400''
                          @ [CHR 0x0A] @ ''150,60,310,7,100,CCS,7,AWD,4500,1850,1550,400''"

definition sampleRow :: "real \<Rightarrow> string \<Rightarrow> row" where
  "sampleRow seats drive =
     [''top_speed_kmh'' \<mapsto> Num (Fin 150), ''battery_capacity_kWh'' \<mapsto> Num (Fin 60),
      ''torque_nm'' \<mapsto> Num (Fin 310), ''acceleration_0_100_s'' \<mapsto> Num (Fin 7),
      ''fast_charging_power_kw_dc'' \<mapsto> Num (Fin 100), ''fast_charge_port'' \<mapsto> Str ''CCS'',
      ''seats'' \<mapsto> Num (Fin seats), ''drivetrain'' \<mapsto> Str drive,
      ''length_mm'' \<mapsto> Num (Fin 4500), ''width_mm'' \<mapsto> Num (Fin 1850),
      ''height_mm'' \<mapsto> Num (Fin 1550), ''range_km'' \<mapsto> Num (Fin 400)]"

text \<open>A file whose drivetrain column holds the codes 9 and 10, and the rows it parses to.\<close>

definition codedCsv :: string where
  "codedCsv = headerLine @ [CHR 0x0A] @ ''150,60,310,7,100,CCS,5,9,4500,1850,1550,400''
                         @ [CHR 0x0A] @ ''150,60,310,7,100,CCS,5,10,4500,1850,1550,400''"

definition codedRow :: "real \<Rightarrow> row" where
  "codedRow drive =
     [''top_speed_kmh'' \<mapsto> Num (Fin 150), ''battery_capacity_kWh'' \<mapsto> Num (Fin 60),
      ''torque_nm'' \<mapsto> Num (Fin 310), ''acceleration_0_100_s'' \<mapsto> Num (Fin 7),
      ''fast_charging_power_kw_dc'' \<mapsto> Num (Fin 100), ''fast_charge_port'' \<mapsto> Str ''CCS'',
      ''seats'' \<mapsto> Num (Fin 5), ''drivetrain'' \<mapsto> Num (Fin drive),
      ''length_mm'' \<mapsto> Num (Fin 4500), ''width_mm'' \<mapsto> Num (Fin 1850),
      ''height_mm'' \<mapsto> Num (Fin 1550), ''range_km'' \<mapsto> Num (Fin 400)]"


section \<open>Closed forms and specification-level notions\<close>

text \<open>The tables and the vectors of a run of \<^verbatim>\<open>preprocessData\<close> that reaches the split.\<close>

definition fittedMappings :: "host \<Rightarrow> row list \<Rightarrow> (string \<rightharpoonup> jsval list)" where
  "fittedMappings H features =
     fold (\<lambda>f m. m(f \<mapsto> uniqueValues H features f)) categoricalFeatures Map.empty"

definition fitted :: "host \<Rightarrow> row list \<Rightarrow> loader \<Rightarrow> loader" where
  "fitted H features L =
     L\<lparr>categoricalMappings := Some (fittedMappings H features),
       featureStats := Some (calcFeatureStats H features numericalFeatures)\<rparr>"

definition featureVector :: "host \<Rightarrow> row list \<Rightarrow> row \<Rightarrow> jsnum list" where
  "featureVector H features r =
     map (\<lambda>f. normalized H (columnStat H (map (\<lambda>r. cell r f) features)) (cell r f)) numericalFeatures
     @ concat (map (\<lambda>f. oneHot (cell r f) (uniqueValues H features f)) categoricalFeatures)"

text \<open>
  The statistics as the specification words them, in the arithmetic of the host: the mean
  of a list of numbers is their sum, taken in order from 0, divided by their count; the
  population standard deviation is the root of the mean of the squares of the deviations
  from the mean.
\<close>

definition sumOf :: "host \<Rightarrow> jsnum list \<Rightarrow> jsnum" where
  "sumOf H ns = foldl (numAdd H) (Fin 0) ns"

definition meanOf :: "host \<Rightarrow> jsnum list \<Rightarrow> jsnum" where
  "meanOf H ns = numDiv H (sumOf H ns) (Fin (real (length ns)))"

definition stdOf :: "host \<Rightarrow> jsnum list \<Rightarrow> jsnum" where
  "stdOf H ns =
     numSqrt H (numDiv H (sumOf H (map (\<lambda>n. numPow2 H (numSub H n (meanOf H ns))) ns))
                         (Fin (real (length ns))))"

text \<open>
  The same over the reals, and the hosts that compute without rounding.
\<close>

definition arithmeticMean :: "real list \<Rightarrow> real" where
  "arithmeticMean xs = sum_list xs / real (length xs)"

definition populationStd :: "real list \<Rightarrow> real" where
  "populationStd xs = sqrt (sum_list (map (\<lambda>x. (x - arithmeticMean xs)\<^sup>2) xs) / real (length xs))"

definition exactArithmetic :: "host \<Rightarrow> bool" where
  "exactArithmetic H =
     (numAdd H = exactAdd \<and> numSub H = exactSub \<and> numDiv H = exactDiv
      \<and> numPow2 H = exactPow2 \<and> numSqrt H = exactSqrt)"

text \<open>
  The natural ordering of the values of a column: numbers by their value, texts by their
  code units.
\<close>

fun naturalLe :: "jsval \<Rightarrow> jsval \<Rightarrow> bool" where
  "naturalLe (Num (Fin x)) (Num (Fin y)) = (x \<le> y)"
| "naturalLe (Str s) (Str t) = (s \<le> t)"
| "naturalLe a b = (a = b)"

text \<open>The values that \<^verbatim>\<open>parseCSV\<close> stores: numbers, and strings that are not numeric.\<close>

definition csvValue :: "host \<Rightarrow> jsval \<Rightarrow> bool" where
  "csvValue H v = (case v of Num n \<Rightarrow> True | Str s \<Rightarrow> strToNumber H s = NaN | _ \<Rightarrow> False)"

section \<open>The application\<close>

text \<open>
  The class \<^verbatim>\<open>EVRangePredictor\<close>.  The state holds the fields of the object that the
  training and prediction paths use, and, for the effects outside the object, the tensors
  of the numerical library that are allocated and not disposed, the number of forward
  passes made for predictions, the range shown on the page and the errors shown by
  \<^verbatim>\<open>alert\<close> (the text shown is \<^verbatim>\<open>Prediction failed:\<close> and the message of the error).  The
  chart, the progress bar and the console are not modelled.
\<close>

record history =
  loss :: "jsval list"
  valLoss :: "jsval list"
  mae :: "jsval list"

record app =
  modelBuilt :: bool
  dataLoader :: loader
  isTraining :: bool
  isModelReady :: bool
  trainingHistory :: history
  liveTensors :: "nat list"
  nextTensor :: nat
  forwardPasses :: nat
  rangeValue :: "jsnum option"
  alerts :: "error list"

definition emptyHistory :: history where
  "emptyHistory = \<lparr>loss = [], valLoss = [], mae = []\<rparr>"

text \<open>Creating a tensor (\<^verbatim>\<open>tf.tensor2d\<close>, the results of \<^verbatim>\<open>evaluate\<close> and \<^verbatim>\<open>predict\<close>) and
  \<^verbatim>\<open>tf.dispose\<close>.\<close>

definition tensor :: "app \<Rightarrow> nat \<times> app" where
  "tensor s = (nextTensor s, s\<lparr>liveTensors := liveTensors s @ [nextTensor s], nextTensor := Suc (nextTensor s)\<rparr>)"

definition dispose :: "nat list \<Rightarrow> app \<Rightarrow> app" where
  "dispose ts s = s\<lparr>liveTensors := filter (\<lambda>t. t \<notin> set ts) (liveTensors s)\<rparr>"

subsection \<open>\<^verbatim>\<open>predict\<close> (the same text in both variants)\<close>

text \<open>
  A form gives the \<^verbatim>\<open>value\<close> of the input element of each id.  \<open>collectInput\<close> is the
  object literal \<^verbatim>\<open>userInput\<close>, as the list of its entries in the order of
  \<^verbatim>\<open>Object.entries\<close>.
\<close>

type_synonym form = "string \<Rightarrow> string"

definition collectInput :: "host \<Rightarrow> form \<Rightarrow> (string \<times> jsval) list" where
  "collectInput H form =
     [(''top_speed_kmh'', Num (parseFloat H (form ''topSpeed''))),
      (''battery_capacity_kWh'', Num (parseFloat H (form ''batteryCapacity''))),
      (''torque_nm'', Num (parseFloat H (form ''torque''))),
      (''acceleration_0_100_s'', Num (parseFloat H (form ''acceleration''))),
      (''fast_charging_power_kw_dc'', Num (parseFloat H (form ''fastCharging''))),
      (''fast_charge_port'', Str (form ''chargePort'')),
      (''seats'', Num (parseInt H (form ''seats''))),
      (''drivetrain'', Str (form ''drivetrain'')),
      (''length_mm'', Num (parseInt H (form ''length''))),
      (''width_mm'', Num (parseInt H (form ''width''))),
      (''height_mm'', Num (parseInt H (form ''height'')))]"

text \<open>\<^verbatim>\<open>value === null || value === undefined || (typeof value === 'number' && isNaN(value))\<close>.\<close>

definition invalidValue :: "jsval \<Rightarrow> bool" where
  "invalidValue v = (v = Null \<or> v = Undefined \<or> v = Num NaN)"

text \<open>The validation loop: the key of the first invalid entry, if there is one.\<close>

fun validateInput :: "(string \<times> jsval) list \<Rightarrow> string option" where
  "validateInput [] = None"
| "validateInput ((key, v) # entries) = (if invalidValue v then Some key else validateInput entries)"

text \<open>
  The body of \<^verbatim>\<open>predict\<close> after the input is collected.  \<open>net\<close> is the forward pass of
  the model, which may raise.  Inside \<^verbatim>\<open>tf.tidy\<close> the input tensor is created and the
  forward pass made; \<^verbatim>\<open>tidy\<close> disposes the input tensor, also when the pass raises; the
  prediction tensor is disposed after its value is read.  Every error is caught and shown.
\<close>

definition predictBody :: "host \<Rightarrow> (jsnum list \<Rightarrow> error + jsnum) \<Rightarrow> (string \<times> jsval) list \<Rightarrow> app \<Rightarrow> app" where
  "predictBody H net userInput s =
     (case validateInput userInput of
        Some key \<Rightarrow> s\<lparr>alerts := alerts s @ [InvalidInput key]\<rparr>
      | None \<Rightarrow>
          (case transformUserInput H (dataLoader s) (map_of userInput) of
             Inl e \<Rightarrow> s\<lparr>alerts := alerts s @ [e]\<rparr>
           | Inr transformedInput \<Rightarrow>
               (case tensor s of
                  (inputTensor, s1) \<Rightarrow>
                    (case net transformedInput of
                       Inl e \<Rightarrow> (dispose [inputTensor] s1)\<lparr>forwardPasses := Suc (forwardPasses s1),
                                                            alerts := alerts s1 @ [e]\<rparr>
                     | Inr y \<Rightarrow>
                         (case tensor (s1\<lparr>forwardPasses := Suc (forwardPasses s1)\<rparr>) of
                            (prediction, s2) \<Rightarrow>
                              (dispose [prediction] (dispose [inputTensor] s2))
                                \<lparr>rangeValue := Some (numRound H y)\<rparr>)))))"

definition predict :: "host \<Rightarrow> (jsnum list \<Rightarrow> error + jsnum) \<Rightarrow> form \<Rightarrow> app \<Rightarrow> app" where
  "predict H net form s =
     (if \<not> isModelReady s \<or> isTraining s then s
      else predictBody H net (collectInput H form) s)"

subsection \<open>\<^verbatim>\<open>trainModel\<close>\<close>

text \<open>
  The numerical library is a parameter of a run: which of the four calls of
  \<^verbatim>\<open>tf.tensor2d\<close> raises, at which epoch \<^verbatim>\<open>fit\<close> itself raises, the logs it passes to
  \<^verbatim>\<open>onEpochEnd\<close> at the end of each epoch, whether \<^verbatim>\<open>evaluate\<close> raises and which of the
  two reads of its results; and the form submissions that arrive while the callback of an
  epoch waits for the next frame.  \<^verbatim>\<open>fit\<close> calls \<^verbatim>\<open>onEpochEnd\<close> once per epoch, in order, and
  fails with the error of a callback that raises.
\<close>

datatype logs = NoLogs | Logs jsval jsval jsval

record trainEnv =
  tensorFault :: "nat \<Rightarrow> bool"
  fitFault :: "nat option"
  epochLogs :: "nat \<Rightarrow> logs"
  submits :: "nat \<Rightarrow> form list"
  evaluateFault :: bool
  dataFault :: "nat \<Rightarrow> bool"

text \<open>The calls \<open>k\<close>, \<open>k + 1\<close>, \<dots> of \<^verbatim>\<open>tf.tensor2d\<close>, up to the first that raises: the tensors
  created, and whether a call raised.\<close>

fun makeTensors :: "trainEnv \<Rightarrow> nat \<Rightarrow> nat \<Rightarrow> app \<Rightarrow> nat list \<times> bool \<times> app" where
  "makeTensors env k 0 s = ([], False, s)"
| "makeTensors env k (Suc n) s =
     (if tensorFault env k then ([], True, s)
      else (case tensor s of
              (t, s1) \<Rightarrow>
                (case makeTensors env (Suc k) n s1 of
                   (ts, fault, s2) \<Rightarrow> (t # ts, fault, s2))))"

text \<open>\<^verbatim>\<open>await tf.nextFrame()\<close>: the submissions that arrived run \<^verbatim>\<open>predict\<close>.\<close>

definition nextFrame :: "host \<Rightarrow> (jsnum list \<Rightarrow> error + jsnum) \<Rightarrow> form list \<Rightarrow> app \<Rightarrow> app" where
  "nextFrame H net forms s = fold (predict H net) forms s"

definition isNumber :: "jsval \<Rightarrow> bool" where
  "isNumber v = (case v of Num n \<Rightarrow> True | _ \<Rightarrow> False)"

definition pushLogs :: "jsval \<Rightarrow> jsval \<Rightarrow> jsval \<Rightarrow> history \<Rightarrow> history" where
  "pushLogs l v m h = \<lparr>loss = loss h @ [l], valLoss = valLoss h @ [v], mae = mae h @ [m]\<rparr>"

text \<open>
  \<^verbatim>\<open>onEpochEnd\<close> of \<^verbatim>\<open>src/app.js\<close>: reading \<^verbatim>\<open>logs.loss\<close> raises when there are no logs; the
  three values are pushed; \<^verbatim>\<open>toFixed\<close> raises on a value that is not a number; then the
  callback waits for the next frame.
\<close>

definition onEpochEnd ::
  "host \<Rightarrow> (jsnum list \<Rightarrow> error + jsnum) \<Rightarrow> trainEnv \<Rightarrow> nat \<Rightarrow> logs \<Rightarrow> app \<Rightarrow> error option \<times> app" where
  "onEpochEnd H net env epoch lg s =
     (case lg of
        NoLogs \<Rightarrow> (Some TypeError, s)
      | Logs l v m \<Rightarrow>
          if isNumber l \<and> isNumber v \<and> isNumber m
          then (None, nextFrame H net (submits env epoch)
                        (s\<lparr>trainingHistory := pushLogs l v m (trainingHistory s)\<rparr>))
          else (Some TypeError, s\<lparr>trainingHistory := pushLogs l v m (trainingHistory s)\<rparr>))"

text \<open>
  \<^verbatim>\<open>onEpochEnd\<close> of \<^verbatim>\<open>src/application/app.js\<close> returns at once, pushing nothing, when
  \<^verbatim>\<open>!logs || logs.loss === undefined || logs.val_loss === undefined\<close>.
\<close>

definition completeLogs :: "logs \<Rightarrow> bool" where
  "completeLogs lg = (case lg of NoLogs \<Rightarrow> False | Logs l v m \<Rightarrow> l \<noteq> Undefined \<and> v \<noteq> Undefined)"

definition onEpochEnd_application ::
  "host \<Rightarrow> (jsnum list \<Rightarrow> error + jsnum) \<Rightarrow> trainEnv \<Rightarrow> nat \<Rightarrow> logs \<Rightarrow> app \<Rightarrow> error option \<times> app" where
  "onEpochEnd_application H net env epoch lg s =
     (if \<not> completeLogs lg then (None, s) else onEpochEnd H net env epoch lg s)"

text \<open>\<^verbatim>\<open>model.fit\<close> from epoch \<open>epoch\<close> on, with \<open>n\<close> epochs to go.\<close>

fun fitLoop ::
  "(nat \<Rightarrow> logs \<Rightarrow> app \<Rightarrow> error option \<times> app) \<Rightarrow> trainEnv \<Rightarrow> nat \<Rightarrow> nat \<Rightarrow> app \<Rightarrow> error option \<times> app" where
  "fitLoop callback env epoch 0 s = (None, s)"
| "fitLoop callback env epoch (Suc n) s =
     (if fitFault env = Some epoch then (Some (LibraryError ''fit''), s)
      else (case callback epoch (epochLogs env epoch) s of
              (Some e, s1) \<Rightarrow> (Some e, s1)
            | (None, s1) \<Rightarrow> fitLoop callback env (Suc epoch) n s1))"

text \<open>
  The steps after \<^verbatim>\<open>fit\<close>: \<^verbatim>\<open>evaluate\<close> returns two tensors, both are read, and on success
  the four data tensors and the two results are disposed.  The second component tells
  what is left to the \<^verbatim>\<open>catch\<close> block.
\<close>

definition evaluateAndDispose :: "trainEnv \<Rightarrow> nat list \<Rightarrow> app \<Rightarrow> error option \<times> app" where
  "evaluateAndDispose env ts s =
     (if evaluateFault env then (Some (LibraryError ''evaluate''), s)
      else (case tensor s of
              (r0, s1) \<Rightarrow>
                (case tensor s1 of
                   (r1, s2) \<Rightarrow>
                     if dataFault env 0 \<or> dataFault env 1 then (Some (LibraryError ''data''), s2)
                     else (None, (dispose (ts @ [r0, r1]) s2)\<lparr>isTraining := False\<rparr>))))"

definition totalEpochs :: nat where
  "totalEpochs = 200"

text \<open>
  \<^verbatim>\<open>trainModel\<close> of \<^verbatim>\<open>src/app.js\<close>.  Its \<^verbatim>\<open>catch\<close> block resets \<^verbatim>\<open>isTraining\<close> and rethrows.
\<close>

definition trainModel ::
  "host \<Rightarrow> (jsnum list \<Rightarrow> error + jsnum) \<Rightarrow> trainEnv \<Rightarrow> processed \<Rightarrow> app \<Rightarrow> error option \<times> app" where
  "trainModel H net env data s =
     (if \<not> modelBuilt s then (Some ModelNotBuilt, s)
      else
        (case makeTensors env 0 4 (s\<lparr>isTraining := True, trainingHistory := emptyHistory\<rparr>) of
           (ts, True, s1) \<Rightarrow> (Some (LibraryError ''tensor2d''), s1\<lparr>isTraining := False\<rparr>)
         | (ts, False, s1) \<Rightarrow>
             (case fitLoop (onEpochEnd H net env) env 0 totalEpochs s1 of
                (Some e, s2) \<Rightarrow> (Some e, s2\<lparr>isTraining := False\<rparr>)
              | (None, s2) \<Rightarrow>
                  (case evaluateAndDispose env ts s2 of
                     (Some e, s3) \<Rightarrow> (Some e, s3\<lparr>isTraining := False\<rparr>)
                   | (None, s3) \<Rightarrow> (None, s3)))))"

definition totalEpochs_application :: nat where
  "totalEpochs_application = 100"

text \<open>
  \<^verbatim>\<open>trainModel\<close> of \<^verbatim>\<open>src/application/app.js\<close>: the data are checked first, the counts of
  rows of the feature and target tensors are compared, and the \<^verbatim>\<open>catch\<close> block disposes
  those of the four data tensors that were created (the results of \<^verbatim>\<open>evaluate\<close> are local
  to the \<^verbatim>\<open>try\<close> block).
\<close>

definition trainModel_application ::
  "host \<Rightarrow> (jsnum list \<Rightarrow> error + jsnum) \<Rightarrow> trainEnv \<Rightarrow> processed \<Rightarrow> app \<Rightarrow> error option \<times> app" where
  "trainModel_application H net env data s =
     (if \<not> modelBuilt s then (Some ModelNotBuilt, s)
      else if length (trainFeatures data) = 0 \<or> length (trainTargets data) = 0
      then (Some InvalidTrainingData, s\<lparr>isTraining := False, trainingHistory := emptyHistory\<rparr>)
      else if length (testFeatures data) = 0 \<or> length (testTargets data) = 0
      then (Some InvalidTestData, s\<lparr>isTraining := False, trainingHistory := emptyHistory\<rparr>)
      else
        (case makeTensors env 0 4 (s\<lparr>isTraining := True, trainingHistory := emptyHistory\<rparr>) of
           (ts, True, s1) \<Rightarrow> (Some (LibraryError ''tensor2d''), dispose ts (s1\<lparr>isTraining := False\<rparr>))
         | (ts, False, s1) \<Rightarrow>
             if length (trainFeatures data) \<noteq> length (trainTargets data)
                \<or> length (testFeatures data) \<noteq> length (testTargets data)
             then (Some ShapeMismatch, dispose ts (s1\<lparr>isTraining := False\<rparr>))
             else
               (case fitLoop (onEpochEnd_application H net env) env 0 totalEpochs_application s1 of
                  (Some e, s2) \<Rightarrow> (Some e, dispose ts (s2\<lparr>isTraining := False\<rparr>))
                | (None, s2) \<Rightarrow>
                    (case evaluateAndDispose env ts s2 of
                       (Some e, s3) \<Rightarrow> (Some e, dispose ts (s3\<lparr>isTraining := False\<rparr>))
                     | (None, s3) \<Rightarrow> (None, s3)))))"

text \<open>States and libraries for concrete runs.\<close>

definition freshApp :: app where
  "freshApp =
     \<lparr>modelBuilt = True, dataLoader = emptyLoader, isTraining = False, isModelReady = False,
      trainingHistory = emptyHistory, liveTensors = [], nextTensor = 0, forwardPasses = 0,
      rangeValue = None, alerts = []\<rparr>"

definition goodLogs :: logs where
  "goodLogs = Logs (Num (Fin 1)) (Num (Fin 1)) (Num (Fin 1))"

definition quietLibrary :: trainEnv where
  "quietLibrary =
     \<lparr>tensorFault = (\<lambda>k. False), fitFault = None, epochLogs = (\<lambda>epoch. goodLogs),
      submits = (\<lambda>epoch. []), evaluateFault = False, dataFault = (\<lambda>k. False)\<rparr>"

definition sampleData :: processed where
  "sampleData =
     \<lparr>trainFeatures = [[Fin 0]], trainTargets = [Num (Fin 400)],
      testFeatures = [[Fin 0]], testTargets = [Num (Fin 400)], inputShape = 1\<rparr>"

definition emptyForm :: form where
  "emptyForm = (\<lambda>id. [])"

definition constNet :: "jsnum list \<Rightarrow> error + jsnum" where
  "constNet x = Inr (Fin 400)"

text \<open>The records that a list of logs adds to a history, one per logs, in order.\<close>

definition lossOf :: "logs \<Rightarrow> jsval" where
  "lossOf lg = (case lg of NoLogs \<Rightarrow> Undefined | Logs l v m \<Rightarrow> l)"

definition valLossOf :: "logs \<Rightarrow> jsval" where
  "valLossOf lg = (case lg of NoLogs \<Rightarrow> Undefined | Logs l v m \<Rightarrow> v)"

definition maeOf :: "logs \<Rightarrow> jsval" where
  "maeOf lg = (case lg of NoLogs \<Rightarrow> Undefined | Logs l v m \<Rightarrow> m)"

definition appendRecords :: "history \<Rightarrow> logs list \<Rightarrow> history" where
  "appendRecords h ls =
     \<lparr>loss = loss h @ map lossOf ls, valLoss = valLoss h @ map valLossOf ls, mae = mae h @ map maeOf ls\<rparr>"

text \<open>What a training run may change of the state of the application.\<close>

definition trainingFrame :: "app \<Rightarrow> app \<Rightarrow> bool" where
  "trainingFrame s s' =
     (\<exists>b h lt nt. s' = s\<lparr>isTraining := b, trainingHistory := h, liveTensors := lt, nextTensor := nt\<rparr>)"

text \<open>Libraries and forms for concrete runs: \<^verbatim>\<open>fit\<close> raises at the fourth epoch; the first
  read of the results of \<^verbatim>\<open>evaluate\<close> raises; the field for the seats is left empty.\<close>

definition faultyFitLibrary :: trainEnv where
  "faultyFitLibrary = quietLibrary\<lparr>fitFault := Some 3\<rparr>"

definition faultyReadLibrary :: trainEnv where
  "faultyReadLibrary = quietLibrary\<lparr>dataFault := (\<lambda>k. k = 0)\<rparr>"

definition formWithoutSeats :: form where
  "formWithoutSeats =
     (\<lambda>id. if id = ''seats'' then []
           else if id = ''chargePort'' then ''CCS''
           else if id = ''drivetrain'' then ''AWD''
           else ''100'')"

definition readyApp :: app where
  "readyApp = freshApp\<lparr>isModelReady := True\<rparr>"

text \<open>Logs that the callbacks accept, and a library that raises nowhere.\<close>

definition numericLogs :: "logs \<Rightarrow> bool" where
  "numericLogs lg = (case lg of NoLogs \<Rightarrow> False | Logs l v m \<Rightarrow> isNumber l \<and> isNumber v \<and> isNumber m)"

definition quiet :: "trainEnv \<Rightarrow> bool" where
  "quiet env =
     ((\<forall>k. \<not> tensorFault env k) \<and> fitFault env = None \<and> \<not> evaluateFault env
      \<and> \<not> dataFault env 0 \<and> \<not> dataFault env 1)"

section \<open>Properties of the split\<close>

lemma splitIndex_div: "splitIndex n = (4 * n) div 5"
proof -
  have "real n * 0.8 = real (4 * n) / real 5"
    by simp
  then have "\<lfloor>real n * 0.8\<rfloor> = int ((4 * n) div 5)"
    by (simp only: floor_divide_of_nat_eq)
  then show ?thesis
    by (simp add: splitIndex_def)
qed

lemma splitIndex_le: "splitIndex n \<le> n"
  by (simp add: splitIndex_div)

lemma randomIndex_le:
  assumes "0 \<le> r" and "r < 1"
  shows "randomIndex r i \<le> i"
proof -
  have "r * real (i + 1) < real (i + 1)"
    using assms by simp
  then have "\<lfloor>r * real (i + 1)\<rfloor> < int (i + 1)"
    by (simp add: floor_less_iff)
  then show ?thesis
    by (simp add: randomIndex_def)
qed

lemma swap_length: "length (swap xs i j) = length xs"
  by (simp add: swap_def)

lemma swap_mset: "i < length xs \<Longrightarrow> j < length xs \<Longrightarrow> mset (swap xs i j) = mset xs"
  unfolding swap_def by (rule mset_swap)

lemma shuffleLoop_mset:
  assumes "\<forall>k. 0 \<le> rnd k \<and> rnd k < 1" and "i < length xs"
  shows "mset (shuffleLoop rnd c i xs) = mset xs"
  using assms(2)
proof (induction i arbitrary: c xs)
  case 0
  show ?case by simp
next
  case (Suc i)
  let ?j = "randomIndex (rnd c) (Suc i)"
  have "?j \<le> Suc i"
    using assms(1) by (simp add: randomIndex_le)
  with Suc.prems have j: "?j < length xs"
    by simp
  have "mset (shuffleLoop rnd (Suc c) i (swap xs (Suc i) ?j)) = mset (swap xs (Suc i) ?j)"
    using Suc.prems by (intro Suc.IH) (simp add: swap_length)
  also have "\<dots> = mset xs"
    using Suc.prems j by (simp add: swap_mset)
  finally show ?case
    by simp
qed

lemma shuffleIndices_mset:
  assumes "\<forall>k. 0 \<le> rnd k \<and> rnd k < 1"
  shows "mset (shuffleIndices rnd n) = mset [0..<n]"
proof (cases n)
  case 0
  then show ?thesis
    by (simp add: shuffleIndices_def)
next
  case (Suc m)
  then show ?thesis
    unfolding shuffleIndices_def using assms by (intro shuffleLoop_mset) simp_all
qed

lemma shuffleLoop_length: "length (shuffleLoop rnd c i xs) = length xs"
  by (induction i arbitrary: c xs) (simp_all add: swap_length)

lemma shuffleIndices_length: "length (shuffleIndices rnd n) = n"
  by (simp add: shuffleIndices_def shuffleLoop_length)

lemma shuffleIndices_set:
  assumes "\<forall>k. 0 \<le> rnd k \<and> rnd k < 1"
  shows "set (shuffleIndices rnd n) = {0..<n}"
  using mset_eq_setD [OF shuffleIndices_mset [OF assms, of n]] by simp

lemma shuffleIndices_distinct:
  assumes "\<forall>k. 0 \<le> rnd k \<and> rnd k < 1"
  shows "distinct (shuffleIndices rnd n)"
  using mset_eq_imp_distinct_iff [OF shuffleIndices_mset [OF assms, of n]] by simp

lemma shuffleIndices_Nil: "(shuffleIndices rnd n = []) = (n = 0)"
  using shuffleIndices_length [of rnd n] by (metis length_0_conv)

lemma split_result_cases:
  "trainTestSplit rnd n = Inl DatasetTooSmall
   \<or> trainTestSplit rnd n =
       Inr (take (splitIndex n) (shuffleIndices rnd n), drop (splitIndex n) (shuffleIndices rnd n))"
  by (simp add: trainTestSplit_def Let_def)

lemma split_fails_iff: "(trainTestSplit rnd n = Inl DatasetTooSmall) = (n < 2)"
  by (auto simp: trainTestSplit_def splitIndex_div Let_def)

lemma split_groups:
  assumes "\<forall>k. 0 \<le> rnd k \<and> rnd k < 1"
  shows "set (take k (shuffleIndices rnd n)) \<inter> set (drop k (shuffleIndices rnd n)) = {}"
    and "set (take k (shuffleIndices rnd n)) \<union> set (drop k (shuffleIndices rnd n)) = {0..<n}"
    and "distinct (take k (shuffleIndices rnd n))"
    and "distinct (drop k (shuffleIndices rnd n))"
proof -
  let ?p = "shuffleIndices rnd n"
  have "distinct (take k ?p @ drop k ?p)"
    using shuffleIndices_distinct [OF assms, of n] by simp
  then show "set (take k ?p) \<inter> set (drop k ?p) = {}"
    and "distinct (take k ?p)" and "distinct (drop k ?p)"
    by (simp_all only: distinct_append)
  have "set (take k ?p @ drop k ?p) = {0..<n}"
    using shuffleIndices_set [OF assms, of n] by simp
  then show "set (take k ?p) \<union> set (drop k ?p) = {0..<n}"
    by (simp only: set_append)
qed

text \<open>
  C1.  When the split succeeds, the shuffled indices are a permutation of the row
  indices \<open>0, \<dots>, n - 1\<close>; the train group is its first \<open>\<lfloor>n * 0.8\<rfloor>\<close> entries and the
  test group the rest; the two groups are disjoint, together they are exactly the row
  indices, and their sizes add up to \<open>n\<close>.
\<close>

theorem split_partition:
  assumes "\<forall>k. 0 \<le> rnd k \<and> rnd k < 1"
    and "trainTestSplit rnd n = Inr (trainIndices, testIndices)"
  shows "mset (shuffleIndices rnd n) = mset [0..<n]
       \<and> trainIndices = take (nat \<lfloor>real n * 0.8\<rfloor>) (shuffleIndices rnd n)
       \<and> testIndices = drop (nat \<lfloor>real n * 0.8\<rfloor>) (shuffleIndices rnd n)
       \<and> set trainIndices \<inter> set testIndices = {}
       \<and> set trainIndices \<union> set testIndices = {0..<n}
       \<and> distinct trainIndices \<and> distinct testIndices
       \<and> length trainIndices = nat \<lfloor>real n * 0.8\<rfloor>
       \<and> length trainIndices + length testIndices = n"
proof -
  let ?p = "shuffleIndices rnd n"
  from assms(2) split_result_cases [of rnd n]
  have tr: "trainIndices = take (splitIndex n) ?p" and te: "testIndices = drop (splitIndex n) ?p"
    by auto
  have l: "length trainIndices = splitIndex n"
    and s: "length trainIndices + length testIndices = n"
    using splitIndex_le [of n] by (simp_all add: tr te shuffleIndices_length)
  from split_groups [OF assms(1), of "splitIndex n" n] shuffleIndices_mset [OF assms(1), of n] l s
  have "mset ?p = mset [0..<n]
       \<and> trainIndices = take (splitIndex n) ?p
       \<and> testIndices = drop (splitIndex n) ?p
       \<and> set trainIndices \<inter> set testIndices = {}
       \<and> set trainIndices \<union> set testIndices = {0..<n}
       \<and> distinct trainIndices \<and> distinct testIndices
       \<and> length trainIndices = splitIndex n
       \<and> length trainIndices + length testIndices = n"
    unfolding tr te by blast
  then show ?thesis
    unfolding splitIndex_def .
qed

theorem split_partition_witness:
  "trainTestSplit (fixedRandom (1 / 2)) 5 = Inr ([0, 3, 1, 4], [2])
   \<and> set [0, 3, 1, 4 :: nat] \<inter> set [2] = {}
   \<and> set [0, 3, 1, 4 :: nat] \<union> set [2] = {0..<5}
   \<and> length [0, 3, 1, 4 :: nat] + length [2 :: nat] = 5"
proof -
  have r: "\<forall>k. 0 \<le> fixedRandom (1 / 2) k \<and> fixedRandom (1 / 2) k < 1"
    by (simp add: fixedRandom_def)
  have e: "trainTestSplit (fixedRandom (1 / 2)) 5 = Inr ([0, 3, 1, 4], [2])"
    by code_simp
  from split_partition [OF r e] e show ?thesis
    by blast
qed

text \<open>
  C5, as the code has it.  The split fails exactly when the train group or the test
  group would be empty under the \<open>\<lfloor>n * 0.8\<rfloor>\<close> cut, and that is exactly when \<open>n < 2\<close>;
  with two, three or four rows both groups are non-empty and the check passes, as it does
  for every dataset of at least 5 rows.
\<close>

theorem split_too_small_iff:
  "(trainTestSplit rnd n = Inl DatasetTooSmall) =
     (take (nat \<lfloor>real n * 0.8\<rfloor>) (shuffleIndices rnd n) = []
      \<or> drop (nat \<lfloor>real n * 0.8\<rfloor>) (shuffleIndices rnd n) = [])
   \<and> (trainTestSplit rnd n = Inl DatasetTooSmall) = (n < 2)
   \<and> (5 \<le> n \<longrightarrow> (\<exists>tr te. trainTestSplit rnd n = Inr (tr, te) \<and> tr \<noteq> [] \<and> te \<noteq> []))"
proof -
  let ?p = "shuffleIndices rnd n"
  have a: "(take (splitIndex n) ?p = [] \<or> drop (splitIndex n) ?p = []) = (n < 2)"
    by (auto simp: take_eq_Nil shuffleIndices_Nil shuffleIndices_length splitIndex_div)
  have b: "(trainTestSplit rnd n = Inl DatasetTooSmall) = (n < 2)"
    by (rule split_fails_iff)
  have c: "\<exists>tr te. trainTestSplit rnd n = Inr (tr, te) \<and> tr \<noteq> [] \<and> te \<noteq> []" if "5 \<le> n"
  proof -
    from that b have "trainTestSplit rnd n \<noteq> Inl DatasetTooSmall"
      by simp
    with split_result_cases [of rnd n]
    have "trainTestSplit rnd n = Inr (take (splitIndex n) ?p, drop (splitIndex n) ?p)"
      by blast
    moreover from that a have "take (splitIndex n) ?p \<noteq> []" and "drop (splitIndex n) ?p \<noteq> []"
      by auto
    ultimately show ?thesis
      by blast
  qed
  from a b c
  have "(trainTestSplit rnd n = Inl DatasetTooSmall) =
          (take (splitIndex n) ?p = [] \<or> drop (splitIndex n) ?p = [])
        \<and> (trainTestSplit rnd n = Inl DatasetTooSmall) = (n < 2)
        \<and> (5 \<le> n \<longrightarrow> (\<exists>tr te. trainTestSplit rnd n = Inr (tr, te) \<and> tr \<noteq> [] \<and> te \<noteq> []))"
    by blast
  then show ?thesis
    unfolding splitIndex_def .
qed

theorem split_too_small_iff_witness:
  "(5::nat) \<le> 5 \<and> trainTestSplit (fixedRandom (1 / 2)) 5 = Inr ([0, 3, 1, 4], [2])
   \<and> trainTestSplit (fixedRandom (1 / 2)) 5 \<noteq> Inl DatasetTooSmall"
proof -
  have e: "trainTestSplit (fixedRandom (1 / 2)) 5 = Inr ([0, 3, 1, 4], [2])"
    by code_simp
  from split_too_small_iff [of "fixedRandom (1 / 2)" 5] e show ?thesis
    by simp
qed

text \<open>
  C5, as the claim has it, fails at two rows: fewer than 5, and the split succeeds with
  one index on each side.
\<close>

theorem split_two_rows_counterexample:
  "(2::nat) < 5 \<and> trainTestSplit (fixedRandom (1 / 2)) 2 = Inr ([0], [1])"
  by code_simp

section \<open>Properties of the transform\<close>

lemma sequence_all_Inr:
  "\<forall>x\<in>set xs. f x = Inr (g x) \<Longrightarrow> sequence (map f xs) = Inr (map g xs)"
  by (induction xs) simp_all

lemma numericalPart_fitted:
  "featureStats L = Some st \<Longrightarrow> st f = Some s \<Longrightarrow>
   numericalPart H L r f = Inr (normalized H s (cell r f))"
  by (simp add: numericalPart_def)

lemma categoricalPart_fitted:
  "categoricalMappings L = Some m \<Longrightarrow> m f = Some cs \<Longrightarrow>
   categoricalPart L r f = Inr (oneHot (cell r f) cs)"
  by (simp add: categoricalPart_def)

lemma transformFeatures_fitted:
  assumes "featureStats L = Some st" and "categoricalMappings L = Some m"
    and "set nums \<subseteq> dom st" and "set cats \<subseteq> dom m"
  shows "transformFeatures H L r nums cats =
           Inr (map (\<lambda>f. normalized H (the (st f)) (cell r f)) nums
                @ concat (map (\<lambda>f. oneHot (cell r f) (the (m f))) cats))"
proof -
  have n: "sequence (map (numericalPart H L r) nums) =
             Inr (map (\<lambda>f. normalized H (the (st f)) (cell r f)) nums)"
    using assms(1,3) by (intro sequence_all_Inr) (auto simp: numericalPart_def)
  have c: "sequence (map (categoricalPart L r) cats) =
             Inr (map (\<lambda>f. oneHot (cell r f) (the (m f))) cats)"
    using assms(2,4) by (intro sequence_all_Inr) (auto simp: categoricalPart_def)
  show ?thesis
    by (simp add: transformFeatures_def n c)
qed

lemma oneHot_length: "length (oneHot v cs) = length cs"
  by (simp add: oneHot_def)








lemma exact_fin:
  "exactAdd (Fin a) (Fin b) = Fin (a + b)"
  "exactSub (Fin a) (Fin b) = Fin (a - b)"
  "0 < b \<Longrightarrow> exactDiv (Fin a) (Fin b) = Fin (a / b)"
  by (simp_all add: exactAdd_def exactSub_def exactDiv_def isInf_def isZero_def)


section \<open>Properties of the loader\<close>

lemma setOrder_set: "set (setOrder xs) = setValue ` set xs"
  by (simp add: setOrder_def)

lemma setValue_Undefined: "Undefined \<notin> S \<Longrightarrow> Undefined \<notin> setValue ` S"
  by (auto simp: setValue_def split: if_splits)

lemma setOrder_distinct: "distinct (setOrder xs)"
  by (simp add: setOrder_def)

lemma jsSort_defined:
  assumes "Undefined \<notin> set xs"
  shows "jsSort H xs = sort_key (toString H) xs"
proof -
  from assms have "filter (\<lambda>v. v \<noteq> Undefined) xs = xs" and "filter (\<lambda>v. v = Undefined) xs = []"
    by (induction xs) auto
  then show ?thesis
    by (simp add: jsSort_def)
qed

lemma hasAllFeatures_categorical:
  "hasAllFeatures H r \<Longrightarrow> f \<in> set categoricalFeatures \<Longrightarrow> cell r f \<noteq> Undefined \<and> cell r f \<noteq> Null"
  by (auto simp: hasAllFeatures_def list_all_iff)

lemma hasAllFeatures_numerical:
  "hasAllFeatures H r \<Longrightarrow> f \<in> set numericalFeatures \<Longrightarrow>
   cell r f \<noteq> Undefined \<and> cell r f \<noteq> Null \<and> \<not> isNaN H (cell r f)"
  by (auto simp: hasAllFeatures_def list_all_iff)

lemma validRows_hasAllFeatures: "r \<in> set (validRows H raw) \<Longrightarrow> hasAllFeatures H r"
  by (simp add: validRows_def)

lemma validRows_subset: "set (validRows H raw) \<subseteq> set raw"
  by (auto simp: validRows_def)

lemma jsSort_length: "length (jsSort H xs) = length xs"
  using sum_length_filter_compl [of "\<lambda>v. v \<noteq> Undefined" xs] by (simp add: jsSort_def)

lemma uniqueValues_Nil: "(uniqueValues H features f = []) = (features = [])"
proof -
  have "(uniqueValues H features f = []) = (length (uniqueValues H features f) = 0)"
    by simp
  also have "\<dots> = (setOrder (map (\<lambda>r. cell r f) features) = [])"
    by (simp add: uniqueValues_def jsSort_length)
  also have "\<dots> = (set (setOrder (map (\<lambda>r. cell r f) features)) = {})"
    by simp
  also have "\<dots> = (features = [])"
    by (simp add: setOrder_set)
  finally show ?thesis .
qed

lemma categoricalMapping_nonempty:
  "features \<noteq> [] \<Longrightarrow> categoricalMapping H features f = Inr (uniqueValues H features f)"
  by (simp add: categoricalMapping_def uniqueValues_Nil)

lemma buildCategoricalMappings_nonempty:
  "features \<noteq> [] \<Longrightarrow>
   buildCategoricalMappings H features fs m =
     (None, fold (\<lambda>f m. m(f \<mapsto> uniqueValues H features f)) fs m)"
  by (induction fs arbitrary: m) (simp_all add: categoricalMapping_nonempty)

lemma buildCategoricalMappings_error:
  "buildCategoricalMappings H features fs m = (Some e, m') \<Longrightarrow> features = []"
  using buildCategoricalMappings_nonempty [of features H fs m] by (cases "features = []") auto

lemma fold_upd_lookup:
  "fold (\<lambda>f m. m(f \<mapsto> g f)) fs m x = (if x \<in> set fs then Some (g x) else m x)"
  by (induction fs arbitrary: m) auto

lemma calcFeatureStats_lookup:
  "calcFeatureStats H features fs f =
     (if f \<in> set fs then Some (columnStat H (map (\<lambda>r. cell r f) features)) else None)"
  by (simp add: calcFeatureStats_def fold_upd_lookup)

lemma fittedMappings_lookup:
  "fittedMappings H features f =
     (if f \<in> set categoricalFeatures then Some (uniqueValues H features f) else None)"
  by (simp add: fittedMappings_def fold_upd_lookup)

lemma transformFeatures_fitted_loader:
  "transformFeatures H (fitted H features L) r numericalFeatures categoricalFeatures =
     Inr (featureVector H features r)"
proof -
  have "transformFeatures H (fitted H features L) r numericalFeatures categoricalFeatures =
     Inr (map (\<lambda>f. normalized H (the (calcFeatureStats H features numericalFeatures f)) (cell r f))
            numericalFeatures
          @ concat (map (\<lambda>f. oneHot (cell r f) (the (fittedMappings H features f))) categoricalFeatures))"
    by (rule transformFeatures_fitted)
       (auto simp: fitted_def calcFeatureStats_lookup fittedMappings_lookup dom_def)
  then show ?thesis
    by (simp add: featureVector_def calcFeatureStats_lookup fittedMappings_lookup cong: map_cong)
qed

lemma featureVector_length:
  "length (featureVector H features r) =
     length numericalFeatures + sum_list (map (\<lambda>f. length (uniqueValues H features f)) categoricalFeatures)"
  by (simp add: featureVector_def length_concat comp_def oneHot_length)

lemma preprocessData_run:
  assumes "rawData L = Some raw" and "raw \<noteq> []" and "missingColumns (hd raw) = []"
    and "validRows H raw \<noteq> []"
  shows "preprocessData H rnd L =
    (case trainTestSplit rnd (length (validRows H raw)) of
       Inl e \<Rightarrow> (Inl e, fitted H (validRows H raw) L)
     | Inr (trainIndices, testIndices) \<Rightarrow>
         (let X = map (featureVector H (validRows H raw)) (validRows H raw);
              targets = map (\<lambda>r. cell r targetColumn) (validRows H raw);
              pd = \<lparr>trainFeatures = map (\<lambda>i. X ! i) trainIndices,
                    trainTargets = map (\<lambda>i. targets ! i) trainIndices,
                    testFeatures = map (\<lambda>i. X ! i) testIndices,
                    testTargets = map (\<lambda>i. targets ! i) testIndices,
                    inputShape = length (hd (map (\<lambda>i. X ! i) trainIndices))\<rparr>
          in (Inr pd, (fitted H (validRows H raw) L)\<lparr>processedData := Some pd\<rparr>)))"
proof -
  let ?F = "validRows H raw"
  let ?L = "fitted H ?F L"
  let ?X = "map (featureVector H ?F) ?F"
  have b: "buildCategoricalMappings H ?F categoricalFeatures Map.empty = (None, fittedMappings H ?F)"
    using assms(4) by (simp add: buildCategoricalMappings_nonempty fittedMappings_def)
  have L: "L\<lparr>categoricalMappings := Some (fittedMappings H ?F),
             featureStats := Some (calcFeatureStats H ?F numericalFeatures)\<rparr> = ?L"
    by (simp add: fitted_def)
  have s: "sequence (map (\<lambda>r. transformFeatures H ?L r numericalFeatures categoricalFeatures) ?F) = Inr ?X"
    by (intro sequence_all_Inr) (simp add: transformFeatures_fitted_loader)
  have "length (hd ?X) = length (featureVector H ?F (hd ?F))"
    using assms(4) by (simp add: hd_map)
  then have f: "filter (\<lambda>f. length f \<noteq> length (hd ?X)) ?X = []"
    by (simp add: filter_empty_conv featureVector_length)
  show ?thesis
    unfolding preprocessData_def
    using assms(2,3,4)
    by (simp add: assms(1) Let_def b L s f split: sum.split prod.split)
qed

lemma coerce_csvValue: "csvValue H (coerce H c)"
  by (simp add: coerce_def csvValue_def isNaN_def)

lemma mkRow_fold_csvValue:
  assumes "\<forall>k v. m k = Some v \<longrightarrow> csvValue H v"
  shows "\<forall>k v. fold (\<lambda>(header, v) r. r(header \<mapsto> coerce H v)) ps m k = Some v \<longrightarrow> csvValue H v"
  using assms
proof (induction ps arbitrary: m)
  case Nil
  then show ?case by simp
next
  case (Cons p ps)
  obtain h c where p: "p = (h, c)"
    by (cases p)
  have "\<forall>k v. (m(h \<mapsto> coerce H c)) k = Some v \<longrightarrow> csvValue H v"
    using Cons.prems by (auto simp: coerce_csvValue)
  from Cons.IH [OF this] show ?case
    by (simp add: p)
qed

lemma mkRow_csvValue: "mkRow H hs vs k = Some v \<Longrightarrow> csvValue H v"
  using mkRow_fold_csvValue [of Map.empty H "zip hs vs"] by (simp add: mkRow_def)

lemma parseLines_rows: "r \<in> set (parseLines H hs ls) \<Longrightarrow> \<exists>vs. r = mkRow H hs vs"
proof (induction ls)
  case Nil
  then show ?case by simp
next
  case (Cons l ls)
  then consider "r = mkRow H hs (map (trim H) (splitOn CHR '','' l))" | "r \<in> set (parseLines H hs ls)"
    by (auto simp: Let_def split: if_splits)
  then show ?case
    using Cons.IH by cases blast+
qed

lemma parseCSV_csvValue:
  assumes "parseCSV H csvText = Inr raw" and "r \<in> set raw" and "r k = Some v"
  shows "csvValue H v"
proof -
  from assms(1,2) obtain hs ls where "r \<in> set (parseLines H hs ls)"
    by (auto simp: parseCSV_def Let_def split: if_splits)
  then obtain vs where "r = mkRow H hs vs"
    using parseLines_rows by blast
  with assms(3) show ?thesis
    by (simp add: mkRow_csvValue)
qed

lemma valid_numeric_cell:
  assumes "parseCSV H csvText = Inr raw" and "r \<in> set (validRows H raw)"
    and "f \<in> set numericalFeatures"
  shows "\<exists>n. cell r f = Num n \<and> n \<noteq> NaN"
proof -
  from assms(2) have r: "r \<in> set raw" and h: "hasAllFeatures H r"
    using validRows_subset validRows_hasAllFeatures by blast+
  from hasAllFeatures_numerical [OF h assms(3)]
  have u: "cell r f \<noteq> Undefined" and n: "\<not> isNaN H (cell r f)"
    by simp_all
  from u obtain v where v: "r f = Some v"
    by (auto simp: cell_def split: option.splits)
  from parseCSV_csvValue [OF assms(1) r v] n v show ?thesis
    by (cases v) (auto simp: cell_def csvValue_def isNaN_def)
qed

lemma valid_numeric_column:
  assumes "parseCSV H csvText = Inr raw" and "f \<in> set numericalFeatures"
  shows "\<exists>ns. map (\<lambda>r. cell r f) (validRows H raw) = map Num ns \<and> NaN \<notin> set ns"
proof -
  have "\<exists>ns. map (\<lambda>r. cell r f) rs = map Num ns \<and> NaN \<notin> set ns"
    if "\<forall>r\<in>set rs. \<exists>n. cell r f = Num n \<and> n \<noteq> NaN" for rs
    using that
  proof (induction rs)
    case Nil
    then show ?case by simp
  next
    case (Cons r rs)
    then obtain n ns where "cell r f = Num n" and "n \<noteq> NaN"
      and "map (\<lambda>r. cell r f) rs = map Num ns" and "NaN \<notin> set ns"
      by auto
    then have "map (\<lambda>r. cell r f) (r # rs) = map Num (n # ns) \<and> NaN \<notin> set (n # ns)"
      by auto
    then show ?case
      by blast
  qed
  with valid_numeric_cell [OF assms(1) _ assms(2)] show ?thesis
    by blast
qed

lemma foldl_plus_num:
  "foldl (js_plus H) (Num a) (map Num ns) = Num (foldl (numAdd H) a ns)"
  by (induction ns arbitrary: a) (simp_all add: js_plus_def)

lemma columnMean_num: "columnMean H (map Num ns) = meanOf H ns"
  by (simp add: columnMean_def foldl_plus_num meanOf_def sumOf_def)

lemma columnVariance_num:
  "columnVariance H (map Num ns) =
     numDiv H (sumOf H (map (\<lambda>n. numPow2 H (numSub H n (meanOf H ns))) ns)) (Fin (real (length ns)))"
  by (simp add: columnVariance_def columnMean_num sumOf_def foldl_map js_minus_def)

lemma columnStat_num:
  "columnStat H (map Num ns) =
     \<lparr>mean = meanOf H ns, std = (if isZero (stdOf H ns) then Fin 1 else stdOf H ns)\<rparr>"
  by (simp add: columnStat_def columnMean_num columnVariance_num stdOf_def Let_def)

lemma foldl_exactAdd_fin: "foldl exactAdd (Fin a) (map Fin xs) = Fin (a + sum_list xs)"
  by (induction xs arbitrary: a) (simp_all add: exact_fin add.assoc)

lemma sumOf_exact: "exactArithmetic H \<Longrightarrow> sumOf H (map Fin xs) = Fin (sum_list xs)"
  by (simp add: sumOf_def exactArithmetic_def foldl_exactAdd_fin)

lemma meanOf_exact:
  "exactArithmetic H \<Longrightarrow> xs \<noteq> [] \<Longrightarrow> meanOf H (map Fin xs) = Fin (arithmeticMean xs)"
  by (simp add: meanOf_def sumOf_exact arithmeticMean_def) (simp add: exactArithmetic_def exact_fin)

lemma sum_squares_nonneg: "0 \<le> sum_list (map (\<lambda>x. (x - mu)\<^sup>2) xs)" for mu :: real
  by (induction xs) simp_all

lemma stdOf_exact:
  assumes "exactArithmetic H" and "xs \<noteq> []"
  shows "stdOf H (map Fin xs) = Fin (populationStd xs)"
proof -
  let ?mu = "arithmeticMean xs"
  have e: "numSub H = exactSub" "numPow2 H = exactPow2" "numDiv H = exactDiv" "numSqrt H = exactSqrt"
    using assms(1) by (simp_all add: exactArithmetic_def)
  have m: "meanOf H (map Fin xs) = Fin ?mu"
    using assms by (rule meanOf_exact)
  have "map (\<lambda>n. numPow2 H (numSub H n (Fin ?mu))) (map Fin xs) = map Fin (map (\<lambda>x. (x - ?mu)\<^sup>2) xs)"
    by (simp add: e exact_fin)
  then have "sumOf H (map (\<lambda>n. numPow2 H (numSub H n (meanOf H (map Fin xs)))) (map Fin xs))
      = sumOf H (map Fin (map (\<lambda>x. (x - ?mu)\<^sup>2) xs))"
    unfolding m by (rule arg_cong)
  then have "sumOf H (map (\<lambda>n. numPow2 H (numSub H n (meanOf H (map Fin xs)))) (map Fin xs))
      = Fin (sum_list (map (\<lambda>x. (x - ?mu)\<^sup>2) xs))"
    by (simp only: sumOf_exact [OF assms(1)])
  moreover have "0 \<le> sum_list (map (\<lambda>x. (x - ?mu)\<^sup>2) xs) / real (length xs)"
    by (simp add: sum_squares_nonneg)
  ultimately show ?thesis
    using assms(2) by (simp add: stdOf_def e exact_fin populationStd_def)
qed

subsection \<open>The statistics\<close>

lemmas decimalHost_simps = decimalHost_def trimAscii_def isSpace_def isDigit_def digitsValue_def
  decimalPrefix_def

lemma twoRowCsv_parse:
  "parseCSV decimalHost twoRowCsv = Inr [sampleRow 5 ''RWD'', sampleRow 7 ''AWD'']"
  by (simp add: parseCSV_def twoRowCsv_def headerLine_def mkRow_def coerce_def isNaN_def
      sampleRow_def decimalHost_simps)

lemma sampleRow_missingColumns: "missingColumns (sampleRow s d) = []"
  by (simp add: missingColumns_def sampleRow_def numericalFeatures_def categoricalFeatures_def
      targetColumn_def)

lemma sampleRow_valid: "validRows H [sampleRow s d, sampleRow s' d'] = [sampleRow s d, sampleRow s' d']"
  by (simp add: validRows_def hasAllFeatures_def sampleRow_def numericalFeatures_def
      categoricalFeatures_def targetColumn_def cell_def isNaN_def)

lemma sampleRow_seats: "cell (sampleRow s d) ''seats'' = Num (Fin s)"
  by (simp add: sampleRow_def cell_def)

lemma sampleRow_drivetrain: "cell (sampleRow s d) ''drivetrain'' = Str d"
  by (simp add: sampleRow_def cell_def)


lemma preprocessData_early:
  assumes "rawData L = Some raw"
  shows "raw = [] \<Longrightarrow> preprocessData H rnd L = (Inl NoDataLoaded, L)"
    and "raw \<noteq> [] \<Longrightarrow> missingColumns (hd raw) \<noteq> [] \<Longrightarrow>
         preprocessData H rnd L = (Inl (MissingColumns (missingColumns (hd raw))), L)"
    and "raw \<noteq> [] \<Longrightarrow> missingColumns (hd raw) = [] \<Longrightarrow> validRows H raw = [] \<Longrightarrow>
         preprocessData H rnd L = (Inl NoValidSamples, L)"
  by (simp_all add: preprocessData_def assms)

lemma preprocessData_success:
  assumes "rawData L = Some raw" and "preprocessData H rnd L = (Inr pd, L')"
  shows "raw \<noteq> [] \<and> missingColumns (hd raw) = [] \<and> validRows H raw \<noteq> []"
  using preprocessData_early [OF assms(1), of H rnd] assms(2) by fastforce

lemma preprocessData_fitted:
  assumes "rawData L = Some raw" and "preprocessData H rnd L = (Inr pd, L')"
  shows "L' = (fitted H (validRows H raw) L)\<lparr>processedData := Some pd\<rparr>"
proof -
  from preprocessData_success [OF assms]
  have "raw \<noteq> []" and "missingColumns (hd raw) = []" and "validRows H raw \<noteq> []"
    by simp_all
  from preprocessData_run [OF assms(1) this, of rnd] assms(2) show ?thesis
    by (auto simp: Let_def split: sum.splits prod.splits)
qed

lemma preprocessData_errors:
  "fst (preprocessData H rnd L) \<in>
     {Inl NoDataLoaded, Inl NoValidSamples, Inl DatasetTooSmall}
     \<union> range (\<lambda>cs. Inl (MissingColumns cs)) \<union> range Inr"
proof (cases "rawData L")
  case None
  then show ?thesis
    by (simp add: preprocessData_def)
next
  case (Some raw)
  note e = preprocessData_early [OF Some, of H rnd]
  consider "raw = []" | "raw \<noteq> []" "missingColumns (hd raw) \<noteq> []"
    | "raw \<noteq> []" "missingColumns (hd raw) = []" "validRows H raw = []"
    | "raw \<noteq> []" "missingColumns (hd raw) = []" "validRows H raw \<noteq> []"
    by blast
  then show ?thesis
  proof cases
    case 4
    from split_result_cases [of rnd "length (validRows H raw)"]
    show ?thesis
      by (auto simp: preprocessData_run [OF Some 4] Let_def)
  qed (simp_all add: e)
qed

text \<open>
  C3.  For a file that parses and a run of \<^verbatim>\<open>preprocessData\<close> on its rows that succeeds,
  every numerical feature has a number other than \<open>NaN\<close> in each valid row, and the loader
  holds for it the mean of these numbers and their population standard deviation, with 1
  in place of a deviation that is equal to 0; the numbers are those of all the valid rows,
  not of the train group.  Mean and deviation are computed in the arithmetic of the
  language, the sum being taken in the order of the rows; when this arithmetic is exact
  and the numbers are finite, they are the arithmetic mean and the population standard
  deviation of the real numbers.
\<close>

theorem featureStats_over_valid_rows:
  assumes "parseCSV H csvText = Inr raw"
    and "rawData L = Some raw"
    and "preprocessData H rnd L = (Inr pd, L')"
    and "feature \<in> set numericalFeatures"
  shows "\<exists>ns st. map (\<lambda>r. cell r feature) (validRows H raw) = map Num ns
           \<and> NaN \<notin> set ns
           \<and> length ns = length (validRows H raw)
           \<and> ns \<noteq> []
           \<and> featureStats L' = Some st
           \<and> st feature = Some \<lparr>mean = meanOf H ns,
                                 std = (if isZero (stdOf H ns) then Fin 1 else stdOf H ns)\<rparr>
           \<and> (\<forall>xs. exactArithmetic H \<and> ns = map Fin xs \<longrightarrow>
                 st feature = Some \<lparr>mean = Fin (arithmeticMean xs),
                                     std = Fin (if populationStd xs = 0 then 1 else populationStd xs)\<rparr>)"
proof -
  from valid_numeric_column [OF assms(1,4)]
  obtain ns where ns: "map (\<lambda>r. cell r feature) (validRows H raw) = map Num ns"
    and nan: "NaN \<notin> set ns"
    by blast
  from ns have l: "length ns = length (validRows H raw)"
    by (metis length_map)
  with preprocessData_success [OF assms(2,3)] have ne: "ns \<noteq> []"
    by auto
  let ?st = "calcFeatureStats H (validRows H raw) numericalFeatures"
  have st: "featureStats L' = Some ?st"
    by (simp add: preprocessData_fitted [OF assms(2,3)] fitted_def)
  have f: "?st feature = Some \<lparr>mean = meanOf H ns,
                                std = (if isZero (stdOf H ns) then Fin 1 else stdOf H ns)\<rparr>"
    using assms(4) by (simp add: calcFeatureStats_lookup ns columnStat_num)
  have x: "?st feature = Some \<lparr>mean = Fin (arithmeticMean xs),
                                std = Fin (if populationStd xs = 0 then 1 else populationStd xs)\<rparr>"
    if "exactArithmetic H \<and> ns = map Fin xs" for xs
  proof -
    from that ne have "xs \<noteq> []"
      by auto
    with that show ?thesis
      by (simp add: f meanOf_exact stdOf_exact isZero_def)
  qed
  then have X: "\<forall>xs. exactArithmetic H \<and> ns = map Fin xs \<longrightarrow>
      ?st feature = Some \<lparr>mean = Fin (arithmeticMean xs),
                           std = Fin (if populationStd xs = 0 then 1 else populationStd xs)\<rparr>"
    by (intro allI impI)
  show ?thesis
    by (rule exI [of _ ns], rule exI [of _ ?st]) (intro conjI ns nan l ne st f X)
qed


lemma preprocessData_succeeds:
  assumes "rawData L = Some raw" and "raw \<noteq> []" and "missingColumns (hd raw) = []"
    and "2 \<le> length (validRows H raw)"
  shows "\<exists>pd L'. preprocessData H rnd L = (Inr pd, L')"
proof -
  let ?n = "length (validRows H raw)"
  from assms(4) have v: "validRows H raw \<noteq> []"
    by auto
  from assms(4) split_fails_iff [of rnd ?n] have "trainTestSplit rnd ?n \<noteq> Inl DatasetTooSmall"
    by simp
  with split_result_cases [of rnd ?n]
  have "trainTestSplit rnd ?n =
      Inr (take (splitIndex ?n) (shuffleIndices rnd ?n), drop (splitIndex ?n) (shuffleIndices rnd ?n))"
    by blast
  then show ?thesis
    by (simp add: preprocessData_run [OF assms(1,2,3) v] Let_def)
qed

lemma twoRows_preprocess:
  "\<exists>pd L'. preprocessData H rnd
              (emptyLoader\<lparr>rawData := Some [sampleRow s d, sampleRow s' d']\<rparr>) = (Inr pd, L')"
  by (rule preprocessData_succeeds [where raw = "[sampleRow s d, sampleRow s' d']"])
     (simp_all add: sampleRow_missingColumns sampleRow_valid)

lemma decimalHost_exact: "exactArithmetic decimalHost"
  by (simp add: exactArithmetic_def decimalHost_def)

theorem featureStats_over_valid_rows_witness:
  "\<exists>pd L' st.
     parseCSV decimalHost twoRowCsv = Inr [sampleRow 5 ''RWD'', sampleRow 7 ''AWD'']
     \<and> preprocessData decimalHost (fixedRandom (1 / 2))
          (emptyLoader\<lparr>rawData := Some [sampleRow 5 ''RWD'', sampleRow 7 ''AWD'']\<rparr>) = (Inr pd, L')
     \<and> ''seats'' \<in> set numericalFeatures
     \<and> map (\<lambda>r. cell r ''seats'') (validRows decimalHost [sampleRow 5 ''RWD'', sampleRow 7 ''AWD''])
         = [Num (Fin 5), Num (Fin 7)]
     \<and> exactArithmetic decimalHost
     \<and> featureStats L' = Some st
     \<and> st ''seats'' = Some \<lparr>mean = Fin 6, std = Fin 1\<rparr>"
proof -
  let ?raw = "[sampleRow 5 ''RWD'', sampleRow 7 ''AWD'']"
  let ?L = "emptyLoader\<lparr>rawData := Some ?raw\<rparr>"
  obtain pd L' where run: "preprocessData decimalHost (fixedRandom (1 / 2)) ?L = (Inr pd, L')"
    using twoRows_preprocess by blast
  have raw: "rawData ?L = Some ?raw"
    by simp
  have f: "''seats'' \<in> set numericalFeatures"
    by (simp add: numericalFeatures_def)
  have col: "map (\<lambda>r. cell r ''seats'') (validRows decimalHost ?raw) = [Num (Fin 5), Num (Fin 7)]"
    by (simp add: sampleRow_valid sampleRow_seats)
  from featureStats_over_valid_rows [OF twoRowCsv_parse raw run f]
  obtain ns st where ns: "map (\<lambda>r. cell r ''seats'') (validRows decimalHost ?raw) = map Num ns"
    and st: "featureStats L' = Some st"
    and x: "\<forall>xs. exactArithmetic decimalHost \<and> ns = map Fin xs \<longrightarrow>
              st ''seats'' = Some \<lparr>mean = Fin (arithmeticMean xs),
                                    std = Fin (if populationStd xs = 0 then 1 else populationStd xs)\<rparr>"
    by (elim exE conjE)
  from ns col have "ns = map Fin [5, 7]"
    by (auto simp: map_eq_Cons_conv)
  with x decimalHost_exact
  have "st ''seats'' = Some \<lparr>mean = Fin (arithmeticMean [5, 7]),
                              std = Fin (if populationStd [5, 7] = 0 then 1 else populationStd [5, 7])\<rparr>"
    by blast
  moreover have "arithmeticMean [5, 7] = 6" and "populationStd [5, 7] = 1"
    by (simp_all add: arithmeticMean_def populationStd_def)
  ultimately have seats: "st ''seats'' = Some \<lparr>mean = Fin 6, std = Fin 1\<rparr>"
    by simp
  show ?thesis
    by (rule exI [of _ pd], rule exI [of _ L'], rule exI [of _ st])
       (intro conjI twoRowCsv_parse run f col decimalHost_exact st seats)
qed

subsection \<open>The vocabulary\<close>

lemma validRows_categorical_defined:
  assumes "f \<in> set categoricalFeatures"
  shows "Undefined \<notin> (\<lambda>r. cell r f) ` set (validRows H raw)"
  using hasAllFeatures_categorical [OF validRows_hasAllFeatures assms, of _ H raw] by force

lemma uniqueValues_valid:
  assumes "f \<in> set categoricalFeatures"
  shows "uniqueValues H (validRows H raw) f =
           sort_key (toString H) (setOrder (map (\<lambda>r. cell r f) (validRows H raw)))"
  unfolding uniqueValues_def
  using validRows_categorical_defined [OF assms, of H raw]
  by (intro jsSort_defined) (simp add: setOrder_set setValue_Undefined)

lemma categoricalMapping_fails_iff:
  "(categoricalMapping H features f = Inl (NoUniqueValues f)) = ((\<lambda>r. cell r f) ` set features = {})"
  by (simp add: categoricalMapping_def uniqueValues_Nil)

lemma preprocessData_no_NoUniqueValues: "fst (preprocessData H rnd L) \<noteq> Inl (NoUniqueValues f)"
  using preprocessData_errors [of H rnd L] by auto

lemma codedCsv_parse: "parseCSV decimalHost codedCsv = Inr [codedRow 9, codedRow 10]"
  by (simp add: parseCSV_def codedCsv_def headerLine_def mkRow_def coerce_def isNaN_def
      codedRow_def decimalHost_simps)

lemma codedRow_valid: "validRows H [codedRow a, codedRow b] = [codedRow a, codedRow b]"
  by (simp add: validRows_def hasAllFeatures_def codedRow_def numericalFeatures_def
      categoricalFeatures_def targetColumn_def cell_def isNaN_def)

lemma codedRow_drivetrain: "cell (codedRow d) ''drivetrain'' = Num (Fin d)"
  by (simp add: codedRow_def cell_def)

text \<open>
  C9, as the claim has it, fails on a file whose drivetrain column holds the codes 9 and
  10: both rows are valid, the cells are stored as numbers, and the vocabulary is 10
  before 9, the order of their strings.
\<close>

theorem coded_drivetrain_counterexample:
  "parseCSV decimalHost codedCsv = Inr [codedRow 9, codedRow 10]
   \<and> validRows decimalHost [codedRow 9, codedRow 10] = [codedRow 9, codedRow 10]
   \<and> ''drivetrain'' \<in> set categoricalFeatures
   \<and> uniqueValues decimalHost (validRows decimalHost [codedRow 9, codedRow 10]) ''drivetrain''
       = [Num (Fin 10), Num (Fin 9)]
   \<and> \<not> sorted_wrt naturalLe
         (uniqueValues decimalHost (validRows decimalHost [codedRow 9, codedRow 10]) ''drivetrain'')"
proof -
  have f: "''drivetrain'' \<in> set categoricalFeatures"
    by (simp add: categoricalFeatures_def)
  have d: "digitsOf 9 = ''9''" "digitsOf 10 = ''10''"
    by code_simp+
  have s: "numToString decimalHost (Fin 9) = ''9''" "numToString decimalHost (Fin 10) = ''10''"
    by (simp_all add: decimalHost_def d del: digitsOf.simps)
  have u: "uniqueValues decimalHost (validRows decimalHost [codedRow 9, codedRow 10]) ''drivetrain''
       = [Num (Fin 10), Num (Fin 9)]"
    by (simp add: codedRow_valid uniqueValues_def codedRow_drivetrain setOrder_def setValue_def
        jsSort_def s)
  have n: "\<not> sorted_wrt naturalLe
         (uniqueValues decimalHost (validRows decimalHost [codedRow 9, codedRow 10]) ''drivetrain'')"
    by (simp add: u)
  show ?thesis
    by (intro conjI codedCsv_parse codedRow_valid f u n)
qed

text \<open>
  C9, as the code has it.  For a categorical feature, the vocabulary built from the valid
  rows holds each observed value once (the negative zero as the zero), in ascending order
  of the values' strings; a vocabulary of texts is in ascending order of the texts,
  compared by code units.  The step fails with the no-unique-values error exactly when
  there is no value at all, that is when there is no row; with at least one valid row it
  succeeds, and \<^verbatim>\<open>preprocessData\<close>, which builds the vocabulary only after it has found a
  valid row, never fails with that error.
\<close>

theorem vocabulary_sorted_distinct:
  assumes "feature \<in> set categoricalFeatures"
  shows "distinct (uniqueValues H (validRows H raw) feature)
       \<and> set (uniqueValues H (validRows H raw) feature)
           = setValue ` (\<lambda>r. cell r feature) ` set (validRows H raw)
       \<and> sorted (map (toString H) (uniqueValues H (validRows H raw) feature))
       \<and> (\<forall>ss. uniqueValues H (validRows H raw) feature = map Str ss \<longrightarrow> sorted ss)
       \<and> (categoricalMapping H features feature = Inl (NoUniqueValues feature))
           = ((\<lambda>r. cell r feature) ` set features = {})
       \<and> (validRows H raw \<noteq> [] \<longrightarrow>
            categoricalMapping H (validRows H raw) feature
              = Inr (uniqueValues H (validRows H raw) feature))
       \<and> fst (preprocessData H rnd L) \<noteq> Inl (NoUniqueValues feature)"
proof -
  note u = uniqueValues_valid [OF assms, of H raw]
  have A: "distinct (uniqueValues H (validRows H raw) feature)"
    by (simp add: u setOrder_distinct)
  have B: "set (uniqueValues H (validRows H raw) feature)
      = setValue ` (\<lambda>r. cell r feature) ` set (validRows H raw)"
    by (simp add: u setOrder_set)
  have C: "sorted (map (toString H) (uniqueValues H (validRows H raw) feature))"
    by (simp add: u)
  have D: "\<forall>ss. uniqueValues H (validRows H raw) feature = map Str ss \<longrightarrow> sorted ss"
  proof (intro allI impI)
    fix ss
    assume "uniqueValues H (validRows H raw) feature = map Str ss"
    with C have "sorted (map (toString H) (map Str ss))"
      by simp
    moreover have "map (toString H) (map Str ss) = ss"
      by (induction ss) simp_all
    ultimately show "sorted ss"
      by simp
  qed
  have E: "validRows H raw \<noteq> [] \<longrightarrow>
            categoricalMapping H (validRows H raw) feature
              = Inr (uniqueValues H (validRows H raw) feature)"
    using categoricalMapping_nonempty [of "validRows H raw" H feature] by blast
  show ?thesis
    by (intro conjI A B C D E categoricalMapping_fails_iff preprocessData_no_NoUniqueValues)
qed

theorem vocabulary_sorted_distinct_witness:
  "''drivetrain'' \<in> set categoricalFeatures
   \<and> validRows decimalHost [sampleRow 5 ''RWD'', sampleRow 7 ''AWD''] \<noteq> []
   \<and> uniqueValues decimalHost (validRows decimalHost [sampleRow 5 ''RWD'', sampleRow 7 ''AWD''])
        ''drivetrain'' = map Str [''AWD'', ''RWD'']
   \<and> categoricalMapping decimalHost (validRows decimalHost [sampleRow 5 ''RWD'', sampleRow 7 ''AWD''])
        ''drivetrain'' = Inr (map Str [''AWD'', ''RWD''])
   \<and> sorted [''AWD'', ''RWD'']
   \<and> sorted (map (toString decimalHost) (map Str [''AWD'', ''RWD'']))"
proof -
  let ?raw = "[sampleRow 5 ''RWD'', sampleRow 7 ''AWD'']"
  let ?U = "uniqueValues decimalHost (validRows decimalHost ?raw) ''drivetrain''"
  have f: "''drivetrain'' \<in> set categoricalFeatures"
    by (simp add: categoricalFeatures_def)
  have v: "validRows decimalHost ?raw \<noteq> []"
    by (simp add: sampleRow_valid)
  have u: "?U = map Str [''AWD'', ''RWD'']"
    by (simp add: sampleRow_valid uniqueValues_def sampleRow_drivetrain setOrder_def setValue_def
        jsSort_def)
  note t = vocabulary_sorted_distinct [OF f, of decimalHost ?raw]
  have c: "categoricalMapping decimalHost (validRows decimalHost ?raw) ''drivetrain''
           = Inr (map Str [''AWD'', ''RWD''])"
    using t [THEN conjunct2, THEN conjunct2, THEN conjunct2, THEN conjunct2, THEN conjunct2,
        THEN conjunct1, rule_format, OF v]
    by (simp only: u)
  have s: "sorted (map (toString decimalHost) (map Str [''AWD'', ''RWD'']))"
    using t [THEN conjunct2, THEN conjunct2, THEN conjunct1] by (simp only: u)
  have s': "sorted [''AWD'', ''RWD'']"
    by (rule t [THEN conjunct2, THEN conjunct2, THEN conjunct2, THEN conjunct1, rule_format, OF u])
  show ?thesis
    by (intro conjI f v u c s' s)
qed

subsection \<open>Blank cells\<close>

lemma fold_upd_absent:
  "h \<notin> set hs \<Longrightarrow> length vs = length hs \<Longrightarrow>
   fold (\<lambda>(header, v) r. r(header \<mapsto> g v)) (zip hs vs) m h = m h"
  by (induction hs arbitrary: vs m) (auto simp: length_Suc_conv)

lemma fold_upd_last:
  "k < length hs \<Longrightarrow> length vs = length hs \<Longrightarrow> hs ! k \<notin> set (drop (Suc k) hs) \<Longrightarrow>
   fold (\<lambda>(header, v) r. r(header \<mapsto> g v)) (zip hs vs) m (hs ! k) = Some (g (vs ! k))"
proof (induction hs arbitrary: vs m k)
  case Nil
  then show ?case by simp
next
  case (Cons h hs)
  then obtain v vs' where vs: "vs = v # vs'" and l: "length vs' = length hs"
    by (auto simp: length_Suc_conv)
  show ?case
  proof (cases k)
    case 0
    with Cons.prems have "h \<notin> set hs"
      by simp
    from fold_upd_absent [OF this l, of g "m(h \<mapsto> g v)"]
    have "fold (\<lambda>(header, v) r. r(header \<mapsto> g v)) (zip hs vs') (m(h \<mapsto> g v)) h = Some (g v)"
      by (simp only: fun_upd_same)
    then show ?thesis
      unfolding 0 vs by (simp only: zip_Cons_Cons fold_Cons comp_apply case_prod_conv nth_Cons_0)
  next
    case (Suc k')
    with Cons.prems vs l Cons.IH [of k' vs'] show ?thesis
      by simp
  qed
qed

lemma mkRow_cell:
  assumes "k < length headers" and "length vals = length headers"
    and "headers ! k \<notin> set (drop (Suc k) headers)"
  shows "cell (mkRow H headers vals) (headers ! k) = coerce H (vals ! k)"
  by (simp add: mkRow_def cell_def fold_upd_last [OF assms])

lemma coerce_blank:
  "strToNumber H [] \<noteq> NaN \<Longrightarrow> parseFloat H [] = NaN \<Longrightarrow> coerce H [] = Num NaN"
  by (simp add: coerce_def isNaN_def)

lemma NaN_cell_invalid:
  assumes "feature \<in> set numericalFeatures" and "cell r feature = Num NaN"
  shows "r \<notin> set (validRows H raw)"
proof
  assume "r \<in> set (validRows H raw)"
  from hasAllFeatures_numerical [OF validRows_hasAllFeatures [OF this] assms(1)] assms(2)
  show False
    by (simp add: isNaN_def)
qed

text \<open>
  C10.  In a language where \<^verbatim>\<open>Number("")\<close> is a number and \<^verbatim>\<open>parseFloat("")\<close> is \<open>NaN\<close>
  (as in JavaScript), a cell whose trimmed text is empty is stored as the number \<open>NaN\<close>,
  not as text; and a row that has such a cell in the column of a numerical feature is not
  among the valid rows, whatever the other rows are.
\<close>

theorem blank_cell_is_NaN:
  assumes "strToNumber H [] \<noteq> NaN" and "parseFloat H [] = NaN"
    and "trim H c = []"
  shows "coerce H (trim H c) = Num NaN
       \<and> coerce H (trim H c) \<noteq> Str (trim H c)
       \<and> (\<forall>headers vals k raw.
             k < length headers \<and> length vals = length headers
             \<and> headers ! k \<in> set numericalFeatures \<and> headers ! k \<notin> set (drop (Suc k) headers)
             \<and> vals ! k = trim H c
             \<longrightarrow> cell (mkRow H headers vals) (headers ! k) = Num NaN
                 \<and> mkRow H headers vals \<notin> set (validRows H raw))"
proof -
  have c: "coerce H (trim H c) = Num NaN"
    using assms by (simp add: coerce_blank)
  have "cell (mkRow H headers vals) (headers ! k) = Num NaN
      \<and> mkRow H headers vals \<notin> set (validRows H raw)"
    if "k < length headers" and "length vals = length headers"
      and "headers ! k \<in> set numericalFeatures" and "headers ! k \<notin> set (drop (Suc k) headers)"
      and "vals ! k = trim H c"
    for headers vals k raw
  proof -
    from mkRow_cell [OF that(1,2,4), of H] that(5) c
    have n: "cell (mkRow H headers vals) (headers ! k) = Num NaN"
      by simp
    from NaN_cell_invalid [OF that(3) n] n show ?thesis
      by simp
  qed
  with c show ?thesis
    by auto
qed

theorem blank_cell_is_NaN_witness:
  "strToNumber decimalHost [] \<noteq> NaN \<and> parseFloat decimalHost [] = NaN
   \<and> trim decimalHost '' '' = []
   \<and> coerce decimalHost (trim decimalHost '' '') = Num NaN
   \<and> cell (mkRow decimalHost [''seats'', ''drivetrain''] [trim decimalHost '' '', ''AWD'']) ''seats'' = Num NaN
   \<and> mkRow decimalHost [''seats'', ''drivetrain''] [trim decimalHost '' '', ''AWD'']
        \<notin> set (validRows decimalHost
                  [mkRow decimalHost [''seats'', ''drivetrain''] [trim decimalHost '' '', ''AWD'']])"
proof -
  let ?hs = "[''seats'', ''drivetrain'']" and ?vs = "[trim decimalHost '' '', ''AWD'']"
  have a: "strToNumber decimalHost [] \<noteq> NaN" and b: "parseFloat decimalHost [] = NaN"
    and c: "trim decimalHost '' '' = []"
    by (simp_all add: decimalHost_simps)
  have k: "(0::nat) < length ?hs \<and> length ?vs = length ?hs
      \<and> ?hs ! 0 \<in> set numericalFeatures \<and> ?hs ! 0 \<notin> set (drop (Suc 0) ?hs)
      \<and> ?vs ! 0 = trim decimalHost '' ''"
    by (simp add: numericalFeatures_def)
  from blank_cell_is_NaN [OF a b c] k
  have "coerce decimalHost (trim decimalHost '' '') = Num NaN"
    and "cell (mkRow decimalHost ?hs ?vs) (?hs ! 0) = Num NaN
         \<and> mkRow decimalHost ?hs ?vs \<notin> set (validRows decimalHost [mkRow decimalHost ?hs ?vs])"
    by blast+
  with a b c show ?thesis
    by simp
qed

section \<open>Properties of the application\<close>

subsection \<open>The guard and the validation of \<^verbatim>\<open>predict\<close>\<close>

lemma predict_guard: "\<not> isModelReady s \<or> isTraining s \<Longrightarrow> predict H net form s = s"
  by (simp add: predict_def)

lemma nextFrame_training: "isTraining s \<Longrightarrow> nextFrame H net forms s = s"
  unfolding nextFrame_def by (induction forms) (simp_all add: predict_guard)

lemma onEpochEnd_training:
  assumes "isTraining s"
  shows "onEpochEnd H net env epoch lg s =
     (case lg of
        NoLogs \<Rightarrow> (Some TypeError, s)
      | Logs l v m \<Rightarrow>
          (if isNumber l \<and> isNumber v \<and> isNumber m then None else Some TypeError,
           s\<lparr>trainingHistory := pushLogs l v m (trainingHistory s)\<rparr>))"
  using assms by (simp add: onEpochEnd_def nextFrame_training split: logs.split)

lemma validateInput_Some:
  "validateInput entries = Some key \<Longrightarrow> \<exists>v. (key, v) \<in> set entries \<and> invalidValue v"
  by (induction entries rule: validateInput.induct) (auto split: if_splits)

lemma validateInput_invalid:
  "\<exists>e\<in>set entries. invalidValue (snd e) \<Longrightarrow> \<exists>key. validateInput entries = Some key"
  by (induction entries rule: validateInput.induct) auto

lemma validateInput_first:
  "validateInput entries = Some key \<Longrightarrow>
   \<exists>before v after. entries = before @ (key, v) # after \<and> invalidValue v
      \<and> (\<forall>e\<in>set before. \<not> invalidValue (snd e))"
proof (induction entries rule: validateInput.induct)
  case 1
  then show ?case by simp
next
  case (2 k v entries)
  show ?case
  proof (cases "invalidValue v")
    case True
    with "2.prems" have "(k, v) # entries = [] @ (key, v) # entries" and "invalidValue v"
      by simp_all
    then show ?thesis
      by (metis empty_iff list.set(1))
  next
    case False
    with 2 obtain before w after where "entries = before @ (key, w) # after" and "invalidValue w"
      and "\<forall>e\<in>set before. \<not> invalidValue (snd e)"
      by auto
    with False have "(k, v) # entries = ((k, v) # before) @ (key, w) # after"
      and "\<forall>e\<in>set ((k, v) # before). \<not> invalidValue (snd e)"
      by simp_all
    with \<open>invalidValue w\<close> show ?thesis
      by blast
  qed
qed


subsection \<open>Frames\<close>

lemma appendRecords_Nil: "appendRecords h [] = h"
  by (simp add: appendRecords_def)

lemma appendRecords_push:
  "appendRecords (pushLogs l v m h) ls = appendRecords h (Logs l v m # ls)"
  by (simp add: appendRecords_def pushLogs_def lossOf_def valLossOf_def maeOf_def)

lemma fitLoop_onEpochEnd:
  assumes "isTraining s"
  shows "\<exists>k r. k \<le> n
       \<and> fitLoop (onEpochEnd H net env) env e n s =
           (r, s\<lparr>trainingHistory := appendRecords (trainingHistory s) (map (epochLogs env) [e..<e + k])\<rparr>)
       \<and> (\<forall>j\<in>{e..<e + k}. epochLogs env j \<noteq> NoLogs)
       \<and> (r = None \<longrightarrow> k = n)"
  using assms
proof (induction n arbitrary: e s)
  case 0
  then show ?case
    by (simp add: appendRecords_Nil)
next
  case (Suc n)
  show ?case
  proof (cases "fitFault env = Some e \<or> epochLogs env e = NoLogs")
    case True
    then have "fitLoop (onEpochEnd H net env) env e (Suc n) s =
        (if fitFault env = Some e then Some (LibraryError ''fit'') else Some TypeError,
         s\<lparr>trainingHistory := appendRecords (trainingHistory s) (map (epochLogs env) [e..<e + 0])\<rparr>)"
      using Suc.prems by (auto simp: onEpochEnd_training appendRecords_Nil)
    then show ?thesis
      by (intro exI [of _ 0]) auto
  next
    case False
    then obtain l v m where lg: "epochLogs env e = Logs l v m" and nf: "fitFault env \<noteq> Some e"
      by (cases "epochLogs env e") auto
    let ?s1 = "s\<lparr>trainingHistory := pushLogs l v m (trainingHistory s)\<rparr>"
    show ?thesis
    proof (cases "isNumber l \<and> isNumber v \<and> isNumber m")
      case False
      then have "fitLoop (onEpochEnd H net env) env e (Suc n) s =
        (Some TypeError,
         s\<lparr>trainingHistory := appendRecords (trainingHistory s) (map (epochLogs env) [e..<e + 1])\<rparr>)"
        using Suc.prems lg nf
        by (auto simp: onEpochEnd_training appendRecords_push [symmetric] appendRecords_Nil)
      with lg show ?thesis
        by (intro exI [of _ 1]) auto
    next
      case True
      have t: "isTraining ?s1"
        using Suc.prems by simp
      from Suc.IH [OF t, of "Suc e"] obtain k r where k: "k \<le> n"
        and f: "fitLoop (onEpochEnd H net env) env (Suc e) n ?s1 =
           (r, ?s1\<lparr>trainingHistory :=
                     appendRecords (trainingHistory ?s1) (map (epochLogs env) [Suc e..<Suc e + k])\<rparr>)"
        and nl: "\<forall>j\<in>{Suc e..<Suc e + k}. epochLogs env j \<noteq> NoLogs"
        and r: "r = None \<longrightarrow> k = n"
        by blast
      have u: "map (epochLogs env) [e..<Suc (e + k)] =
                 Logs l v m # map (epochLogs env) [Suc e..<Suc (e + k)]"
        by (simp add: upt_conv_Cons lg del: upt_Suc)
      have "fitLoop (onEpochEnd H net env) env e (Suc n) s =
           (r, s\<lparr>trainingHistory :=
                   appendRecords (trainingHistory s) (map (epochLogs env) [e..<e + Suc k])\<rparr>)"
        using Suc.prems lg nf True f
        by (simp add: onEpochEnd_training appendRecords_push u del: upt_Suc)
      moreover have "{e..<e + Suc k} = insert e {Suc e..<Suc e + k}"
        by auto
      then have "\<forall>j\<in>{e..<e + Suc k}. epochLogs env j \<noteq> NoLogs"
        using nl lg by simp
      ultimately show ?thesis
        using k r by (intro exI [of _ "Suc k"]) auto
    qed
  qed
qed

lemma fitLoop_onEpochEnd_application:
  assumes "isTraining s"
  shows "\<exists>k r. k \<le> n
       \<and> fitLoop (onEpochEnd_application H net env) env e n s =
           (r, s\<lparr>trainingHistory :=
                   appendRecords (trainingHistory s)
                     (filter completeLogs (map (epochLogs env) [e..<e + k]))\<rparr>)
       \<and> (r = None \<longrightarrow> k = n)"
  using assms
proof (induction n arbitrary: e s)
  case 0
  then show ?case
    by (simp add: appendRecords_Nil)
next
  case (Suc n)
  let ?F = "fitLoop (onEpochEnd_application H net env) env"
  consider (fault) "fitFault env = Some e"
    | (skip) "fitFault env \<noteq> Some e" "\<not> completeLogs (epochLogs env e)"
    | (push) "fitFault env \<noteq> Some e" "completeLogs (epochLogs env e)"
    by blast
  then show ?case
  proof cases
    case fault
    then have "?F e (Suc n) s =
        (Some (LibraryError ''fit''),
         s\<lparr>trainingHistory := appendRecords (trainingHistory s)
                                 (filter completeLogs (map (epochLogs env) [e..<e + 0]))\<rparr>)"
      by (simp add: appendRecords_Nil)
    then show ?thesis
      by (intro exI [of _ 0]) auto
  next
    case skip
    from Suc.IH [OF Suc.prems, of "Suc e"] obtain k r where k: "k \<le> n"
      and f: "?F (Suc e) n s =
           (r, s\<lparr>trainingHistory := appendRecords (trainingHistory s)
                     (filter completeLogs (map (epochLogs env) [Suc e..<Suc e + k]))\<rparr>)"
      and r: "r = None \<longrightarrow> k = n"
      by blast
    have u: "filter completeLogs (map (epochLogs env) [e..<Suc (e + k)]) =
               filter completeLogs (map (epochLogs env) [Suc e..<Suc (e + k)])"
      using skip(2) by (simp add: upt_conv_Cons del: upt_Suc)
    have "?F e (Suc n) s =
           (r, s\<lparr>trainingHistory := appendRecords (trainingHistory s)
                     (filter completeLogs (map (epochLogs env) [e..<e + Suc k]))\<rparr>)"
      using skip f by (simp add: onEpochEnd_application_def u del: upt_Suc)
    then show ?thesis
      using k r by (intro exI [of _ "Suc k"]) auto
  next
    case push
    then obtain l v m where lg: "epochLogs env e = Logs l v m"
      by (cases "epochLogs env e") (auto simp: completeLogs_def)
    let ?s1 = "s\<lparr>trainingHistory := pushLogs l v m (trainingHistory s)\<rparr>"
    show ?thesis
    proof (cases "isNumber l \<and> isNumber v \<and> isNumber m")
      case False
      have "filter completeLogs (map (epochLogs env) [e..<e + 1]) = [Logs l v m]"
        using push(2) lg by simp
      then have "?F e (Suc n) s =
        (Some TypeError,
         s\<lparr>trainingHistory := appendRecords (trainingHistory s)
                                 (filter completeLogs (map (epochLogs env) [e..<e + 1]))\<rparr>)"
        using Suc.prems lg push False
        by (auto simp: onEpochEnd_application_def onEpochEnd_training
            appendRecords_push [symmetric] appendRecords_Nil)
      then show ?thesis
        by (intro exI [of _ 1]) auto
    next
      case True
      have t: "isTraining ?s1"
        using Suc.prems by simp
      from Suc.IH [OF t, of "Suc e"] obtain k r where k: "k \<le> n"
        and f: "?F (Suc e) n ?s1 =
           (r, ?s1\<lparr>trainingHistory := appendRecords (trainingHistory ?s1)
                     (filter completeLogs (map (epochLogs env) [Suc e..<Suc e + k]))\<rparr>)"
        and r: "r = None \<longrightarrow> k = n"
        by blast
      have u: "filter completeLogs (map (epochLogs env) [e..<Suc (e + k)]) =
                 Logs l v m # filter completeLogs (map (epochLogs env) [Suc e..<Suc (e + k)])"
        using push(2) lg by (simp add: upt_conv_Cons del: upt_Suc)
      have "?F e (Suc n) s =
           (r, s\<lparr>trainingHistory := appendRecords (trainingHistory s)
                     (filter completeLogs (map (epochLogs env) [e..<e + Suc k]))\<rparr>)"
        using Suc.prems lg push True f
        by (simp add: onEpochEnd_application_def onEpochEnd_training appendRecords_push u del: upt_Suc)
      then show ?thesis
        using k r by (intro exI [of _ "Suc k"]) auto
    qed
  qed
qed

lemma trainingFrame_refl: "trainingFrame s s"
proof -
  have "s = s\<lparr>isTraining := isTraining s, trainingHistory := trainingHistory s,
               liveTensors := liveTensors s, nextTensor := nextTensor s\<rparr>"
    by simp
  then show ?thesis
    unfolding trainingFrame_def by blast
qed

lemma trainingFrame_step:
  assumes "trainingFrame s s'"
  shows "trainingFrame s (s'\<lparr>isTraining := b\<rparr>)"
    and "trainingFrame s (s'\<lparr>trainingHistory := h\<rparr>)"
    and "trainingFrame s (dispose ts s')"
    and "trainingFrame s (snd (tensor s'))"
proof -
  from assms obtain b' h' lt nt
    where s': "s' = s\<lparr>isTraining := b', trainingHistory := h', liveTensors := lt, nextTensor := nt\<rparr>"
    unfolding trainingFrame_def by blast
  have "s'\<lparr>isTraining := b\<rparr> = s\<lparr>isTraining := b, trainingHistory := h', liveTensors := lt, nextTensor := nt\<rparr>"
    and "s'\<lparr>trainingHistory := h\<rparr> = s\<lparr>isTraining := b', trainingHistory := h, liveTensors := lt, nextTensor := nt\<rparr>"
    and "dispose ts s' = s\<lparr>isTraining := b', trainingHistory := h',
                            liveTensors := filter (\<lambda>t. t \<notin> set ts) lt, nextTensor := nt\<rparr>"
    and "snd (tensor s') = s\<lparr>isTraining := b', trainingHistory := h',
                              liveTensors := lt @ [nt], nextTensor := Suc nt\<rparr>"
    by (simp_all add: s' dispose_def tensor_def)
  then show "trainingFrame s (s'\<lparr>isTraining := b\<rparr>)"
    and "trainingFrame s (s'\<lparr>trainingHistory := h\<rparr>)"
    and "trainingFrame s (dispose ts s')"
    and "trainingFrame s (snd (tensor s'))"
    unfolding trainingFrame_def by blast+
qed

lemma trainingFrame_fields:
  assumes "trainingFrame s s'"
  shows "forwardPasses s' = forwardPasses s" and "rangeValue s' = rangeValue s"
    and "alerts s' = alerts s" and "isModelReady s' = isModelReady s"
    and "modelBuilt s' = modelBuilt s" and "dataLoader s' = dataLoader s"
  using assms unfolding trainingFrame_def by auto

lemma makeTensors_props:
  "makeTensors env k n s = (ts, f, s') \<Longrightarrow>
   trainingFrame s s' \<and> trainingHistory s' = trainingHistory s \<and> isTraining s' = isTraining s"
proof (induction n arbitrary: k s ts f s')
  case 0
  then show ?case
    by (simp add: trainingFrame_refl)
next
  case (Suc n)
  show ?case
  proof (cases "tensorFault env k")
    case True
    with Suc.prems show ?thesis
      by (simp add: trainingFrame_refl)
  next
    case False
    obtain ts' f' s2 where m: "makeTensors env (Suc k) n (snd (tensor s)) = (ts', f', s2)"
      by (cases "makeTensors env (Suc k) n (snd (tensor s))")
    with Suc.prems False have "s' = s2"
      by (simp add: split_beta)
    moreover from Suc.IH [OF m]
    have "\<exists>b h lt nt. s2 = (snd (tensor s))\<lparr>isTraining := b, trainingHistory := h, liveTensors := lt, nextTensor := nt\<rparr>"
      and "trainingHistory s2 = trainingHistory (snd (tensor s))"
      and "isTraining s2 = isTraining (snd (tensor s))"
      by (simp_all add: trainingFrame_def)
    ultimately show ?thesis
      unfolding trainingFrame_def by (auto simp: tensor_def) 
  qed
qed

lemma tensor_history: "trainingHistory (snd (tensor s)) = trainingHistory s"
  by (simp add: tensor_def)

lemma dispose_history: "trainingHistory (dispose ts s) = trainingHistory s"
  by (simp add: dispose_def)

lemma evaluateAndDispose_props:
  assumes "evaluateAndDispose env ts s = (r, s')"
  shows "trainingFrame s s' \<and> trainingHistory s' = trainingHistory s"
proof -
  let ?s2 = "snd (tensor (snd (tensor s)))"
  let ?rs = "[fst (tensor s), fst (tensor (snd (tensor s)))]"
  have f2: "trainingFrame s ?s2"
    by (intro trainingFrame_step trainingFrame_refl)
  from assms consider "s' = s" | "s' = ?s2" | "s' = (dispose (ts @ ?rs) ?s2)\<lparr>isTraining := False\<rparr>"
    by (auto simp: evaluateAndDispose_def split_beta split: if_splits)
  then show ?thesis
  proof cases
    case 1
    then show ?thesis
      by (simp add: trainingFrame_refl)
  next
    case 2
    with f2 show ?thesis
      by (simp add: tensor_history)
  next
    case 3
    with f2 show ?thesis
      by (simp add: trainingFrame_step tensor_history dispose_history)
  qed
qed

lemma trainingFrame_trans:
  assumes "trainingFrame s s1" and "trainingFrame s1 s2"
  shows "trainingFrame s s2"
proof -
  from assms(1) obtain b1 h1 lt1 nt1
    where s1: "s1 = s\<lparr>isTraining := b1, trainingHistory := h1, liveTensors := lt1, nextTensor := nt1\<rparr>"
    unfolding trainingFrame_def by blast
  from assms(2) obtain b h lt nt
    where s2: "s2 = s1\<lparr>isTraining := b, trainingHistory := h, liveTensors := lt, nextTensor := nt\<rparr>"
    unfolding trainingFrame_def by blast
  have "s2 = s\<lparr>isTraining := b, trainingHistory := h, liveTensors := lt, nextTensor := nt\<rparr>"
    by (simp add: s1 s2)
  then show ?thesis
    unfolding trainingFrame_def by blast
qed

lemma trainModel_summary:
  assumes "modelBuilt s"
  shows "\<exists>k\<le>totalEpochs.
           trainingFrame s (snd (trainModel H net env data s))
         \<and> trainingHistory (snd (trainModel H net env data s)) =
             appendRecords emptyHistory (map (epochLogs env) [0..<k])
         \<and> (\<forall>j<k. epochLogs env j \<noteq> NoLogs)
         \<and> (fst (trainModel H net env data s) = None \<longrightarrow> k = totalEpochs)"
proof -
  let ?s0 = "s\<lparr>isTraining := True, trainingHistory := emptyHistory\<rparr>"
  obtain ts f s1 where m: "makeTensors env 0 4 ?s0 = (ts, f, s1)"
    by (cases "makeTensors env 0 4 ?s0")
  have f0: "trainingFrame s ?s0"
    by (intro trainingFrame_step trainingFrame_refl)
  from makeTensors_props [OF m] have f1: "trainingFrame s s1"
    and h1: "trainingHistory s1 = emptyHistory" and t1: "isTraining s1"
    using trainingFrame_trans [OF f0] by simp_all
  show ?thesis
  proof (cases f)
    case True
    with assms m have "trainModel H net env data s = (Some (LibraryError ''tensor2d''), s1\<lparr>isTraining := False\<rparr>)"
      by (simp add: trainModel_def)
    with f1 h1 show ?thesis
      by (intro exI [of _ 0]) (simp add: trainingFrame_step appendRecords_Nil)
  next
    case False
    from fitLoop_onEpochEnd [OF t1, where n = totalEpochs and e = 0 and H = H and net = net and env = env]
    obtain k r where k: "k \<le> totalEpochs"
      and fit0: "fitLoop (onEpochEnd H net env) env 0 totalEpochs s1 =
           (r, s1\<lparr>trainingHistory := appendRecords (trainingHistory s1) (map (epochLogs env) [0..<0 + k])\<rparr>)"
      and nl0: "\<forall>j\<in>{0..<0 + k}. epochLogs env j \<noteq> NoLogs" and r: "r = None \<longrightarrow> k = totalEpochs"
      by blast
    from fit0 have fit: "fitLoop (onEpochEnd H net env) env 0 totalEpochs s1 =
           (r, s1\<lparr>trainingHistory := appendRecords emptyHistory (map (epochLogs env) [0..<k])\<rparr>)"
      by (simp add: h1)
    from nl0 have nl: "\<forall>j<k. epochLogs env j \<noteq> NoLogs"
      by simp
    let ?s2 = "s1\<lparr>trainingHistory := appendRecords emptyHistory (map (epochLogs env) [0..<k])\<rparr>"
    have f2: "trainingFrame s ?s2"
      using f1 by (intro trainingFrame_step)
    show ?thesis
    proof (cases r)
      case (Some e)
      with assms m False fit have "trainModel H net env data s = (Some e, ?s2\<lparr>isTraining := False\<rparr>)"
        by (simp add: trainModel_def)
      with f2 k nl show ?thesis
        by (intro exI [of _ k]) (simp add: trainingFrame_step)
    next
      case None
      obtain r' s3 where ev: "evaluateAndDispose env ts ?s2 = (r', s3)"
        by (cases "evaluateAndDispose env ts ?s2")
      from evaluateAndDispose_props [OF ev] f2 have f3: "trainingFrame s s3"
        and h3: "trainingHistory s3 = appendRecords emptyHistory (map (epochLogs env) [0..<k])"
        using trainingFrame_trans by auto
      from assms m False fit None ev
      have "trainModel H net env data s = (r', case r' of Some e \<Rightarrow> s3\<lparr>isTraining := False\<rparr> | None \<Rightarrow> s3)"
        by (simp add: trainModel_def split: option.split)
      with f3 h3 k nl r None show ?thesis
        by (intro exI [of _ k]) (simp add: trainingFrame_step split: option.split)
    qed
  qed
qed

lemma trainModel_frame: "trainingFrame s (snd (trainModel H net env data s))"
proof (cases "modelBuilt s")
  case True
  from trainModel_summary [OF this] show ?thesis
    by blast
next
  case False
  then show ?thesis
    by (simp add: trainModel_def trainingFrame_refl)
qed

lemma trainModel_application_summary:
  assumes "modelBuilt s"
  shows "\<exists>k\<le>totalEpochs_application.
           trainingFrame s (snd (trainModel_application H net env data s))
         \<and> trainingHistory (snd (trainModel_application H net env data s)) =
             appendRecords emptyHistory (filter completeLogs (map (epochLogs env) [0..<k]))
         \<and> (fst (trainModel_application H net env data s) = None \<longrightarrow> k = totalEpochs_application)"
proof -
  let ?T = "trainModel_application H net env data s"
  let ?s0 = "s\<lparr>isTraining := True, trainingHistory := emptyHistory\<rparr>"
  let ?bad = "length (trainFeatures data) = 0 \<or> length (trainTargets data) = 0
              \<or> length (testFeatures data) = 0 \<or> length (testTargets data) = 0"
  obtain ts f s1 where m: "makeTensors env 0 4 ?s0 = (ts, f, s1)"
    by (cases "makeTensors env 0 4 ?s0")
  have f0: "trainingFrame s ?s0"
    by (intro trainingFrame_step trainingFrame_refl)
  from makeTensors_props [OF m] have f1: "trainingFrame s s1"
    and h1: "trainingHistory s1 = emptyHistory" and t1: "isTraining s1"
    using trainingFrame_trans [OF f0] by simp_all
  have early: ?thesis
    if "fst ?T \<noteq> None" and "trainingFrame s (snd ?T)" and "trainingHistory (snd ?T) = emptyHistory"
    using that by (intro exI [of _ 0]) (auto simp: appendRecords_Nil)
  show ?thesis
  proof (cases ?bad)
    case True
    have "trainingFrame s (s\<lparr>isTraining := False, trainingHistory := emptyHistory\<rparr>)"
      by (intro trainingFrame_step trainingFrame_refl)
    with True assms show ?thesis
      by (intro early) (auto simp: trainModel_application_def)
  next
    case good: False
    show ?thesis
    proof (cases "f \<or> length (trainFeatures data) \<noteq> length (trainTargets data)
                   \<or> length (testFeatures data) \<noteq> length (testTargets data)")
      case True
      have "trainingFrame s (dispose ts (s1\<lparr>isTraining := False\<rparr>))"
        using f1 by (intro trainingFrame_step)
      moreover from True good assms m
      have "?T = (Some (if f then LibraryError ''tensor2d'' else ShapeMismatch),
                  dispose ts (s1\<lparr>isTraining := False\<rparr>))"
        by (cases f) (simp_all add: trainModel_application_def)
      ultimately show ?thesis
        using h1 by (intro early) (simp_all add: dispose_history)
    next
      case False
      from fitLoop_onEpochEnd_application
        [OF t1, where n = totalEpochs_application and e = 0 and H = H and net = net and env = env]
      obtain k r where k: "k \<le> totalEpochs_application"
        and fit0: "fitLoop (onEpochEnd_application H net env) env 0 totalEpochs_application s1 =
             (r, s1\<lparr>trainingHistory := appendRecords (trainingHistory s1)
                       (filter completeLogs (map (epochLogs env) [0..<0 + k]))\<rparr>)"
        and r: "r = None \<longrightarrow> k = totalEpochs_application"
        by blast
      let ?h = "appendRecords emptyHistory (filter completeLogs (map (epochLogs env) [0..<k]))"
      let ?s2 = "s1\<lparr>trainingHistory := ?h\<rparr>"
      from fit0 have fit: "fitLoop (onEpochEnd_application H net env) env 0 totalEpochs_application s1 = (r, ?s2)"
        by (simp add: h1)
      have f2: "trainingFrame s ?s2"
        using f1 by (intro trainingFrame_step)
      show ?thesis
      proof (cases r)
        case (Some e)
        with assms good m False fit have "?T = (Some e, dispose ts (?s2\<lparr>isTraining := False\<rparr>))"
          by (simp add: trainModel_application_def)
        with f2 k show ?thesis
          by (intro exI [of _ k]) (simp add: trainingFrame_step dispose_history)
      next
        case None
        obtain r' s3 where ev: "evaluateAndDispose env ts ?s2 = (r', s3)"
          by (cases "evaluateAndDispose env ts ?s2")
        from evaluateAndDispose_props [OF ev] f2 have f3: "trainingFrame s s3"
          and h3: "trainingHistory s3 = ?h"
          using trainingFrame_trans by auto
        from assms good m False fit None ev
        have "?T = (r', case r' of Some e \<Rightarrow> dispose ts (s3\<lparr>isTraining := False\<rparr>) | None \<Rightarrow> s3)"
          by (simp add: trainModel_application_def split: option.split)
        with f3 h3 k r None show ?thesis
          by (intro exI [of _ k]) (simp add: trainingFrame_step dispose_history split: option.split)
      qed
    qed
  qed
qed

lemma trainModel_application_frame: "trainingFrame s (snd (trainModel_application H net env data s))"
proof (cases "modelBuilt s")
  case True
  from trainModel_application_summary [OF this] show ?thesis
    by blast
next
  case False
  then show ?thesis
    by (simp add: trainModel_application_def trainingFrame_refl)
qed

subsection \<open>Claims on \<^verbatim>\<open>predict\<close>\<close>

text \<open>
  C6.  \<^verbatim>\<open>predict\<close> returns the state unchanged when the model is not ready or a training
  run is in progress.  A training run holds \<^verbatim>\<open>isTraining\<close> from its start to its end, so the
  submissions that arrive while it waits for the next frame make no forward pass, show
  no range and no error: these parts of the state are the same after \<^verbatim>\<open>trainModel\<close>, in
  both variants, whatever the library does and whatever is submitted.
\<close>

theorem predict_noop_unless_ready:
  "(\<not> isModelReady s \<or> isTraining s \<longrightarrow> predict H net form s = s)
   \<and> forwardPasses (snd (trainModel H net env data s)) = forwardPasses s
   \<and> rangeValue (snd (trainModel H net env data s)) = rangeValue s
   \<and> alerts (snd (trainModel H net env data s)) = alerts s
   \<and> forwardPasses (snd (trainModel_application H net env data s)) = forwardPasses s
   \<and> rangeValue (snd (trainModel_application H net env data s)) = rangeValue s
   \<and> alerts (snd (trainModel_application H net env data s)) = alerts s"
  using predict_guard [of s H net form]
    trainingFrame_fields [OF trainModel_frame [of s H net env data]]
    trainingFrame_fields [OF trainModel_application_frame [of s H net env data]]
  by simp

theorem predict_noop_unless_ready_witness:
  "isTraining (readyApp\<lparr>isTraining := True\<rparr>)
   \<and> predict decimalHost constNet formWithoutSeats (readyApp\<lparr>isTraining := True\<rparr>)
       = readyApp\<lparr>isTraining := True\<rparr>
   \<and> \<not> isModelReady freshApp
   \<and> predict decimalHost constNet formWithoutSeats freshApp = freshApp"
  using predict_noop_unless_ready [of "readyApp\<lparr>isTraining := True\<rparr>" decimalHost constNet formWithoutSeats]
    predict_noop_unless_ready [of freshApp decimalHost constNet formWithoutSeats]
  by (simp add: freshApp_def)

lemma predictBody_invalid:
  "validateInput userInput = Some key \<Longrightarrow>
   predictBody H net userInput s = s\<lparr>alerts := alerts s @ [InvalidInput key]\<rparr>"
  by (simp add: predictBody_def)

text \<open>
  C7.  When some entry of the user input is \<^verbatim>\<open>null\<close>, \<^verbatim>\<open>undefined\<close> or \<open>NaN\<close>, the body of
  \<^verbatim>\<open>predict\<close> ends with the error \<^verbatim>\<open>Invalid input for\<close> the key of the first such entry,
  shown to the user; nothing else of the state changes: no tensor is created and no
  forward pass made, and neither the loader nor the network is consulted (the result is
  the same for every loader and every network).  So does \<^verbatim>\<open>predict\<close> in a ready state that
  is not training, on a form that gives such an input.
\<close>

theorem predict_rejects_invalid_input:
  assumes "\<exists>e\<in>set userInput. invalidValue (snd e)"
  shows "\<exists>before key v after.
           userInput = before @ (key, v) # after \<and> invalidValue v
         \<and> (\<forall>e\<in>set before. \<not> invalidValue (snd e))
         \<and> (\<forall>net L. predictBody H net userInput (s\<lparr>dataLoader := L\<rparr>)
                       = s\<lparr>dataLoader := L, alerts := alerts s @ [InvalidInput key]\<rparr>)
         \<and> liveTensors (predictBody H net userInput s) = liveTensors s
         \<and> nextTensor (predictBody H net userInput s) = nextTensor s
         \<and> forwardPasses (predictBody H net userInput s) = forwardPasses s
         \<and> (isModelReady s \<and> \<not> isTraining s \<and> collectInput H form = userInput \<longrightarrow>
               predict H net form s = s\<lparr>alerts := alerts s @ [InvalidInput key]\<rparr>)"
proof -
  from validateInput_invalid [OF assms] obtain key where k: "validateInput userInput = Some key"
    by blast
  from validateInput_first [OF k] obtain before v after
    where "userInput = before @ (key, v) # after" and "invalidValue v"
      and "\<forall>e\<in>set before. \<not> invalidValue (snd e)"
    by blast
  moreover have "\<forall>net L. predictBody H net userInput (s\<lparr>dataLoader := L\<rparr>)
                       = s\<lparr>dataLoader := L, alerts := alerts s @ [InvalidInput key]\<rparr>"
    by (simp add: predictBody_invalid [OF k])
  moreover have "liveTensors (predictBody H net userInput s) = liveTensors s"
    and "nextTensor (predictBody H net userInput s) = nextTensor s"
    and "forwardPasses (predictBody H net userInput s) = forwardPasses s"
    by (simp_all add: predictBody_invalid [OF k])
  moreover have "isModelReady s \<and> \<not> isTraining s \<and> collectInput H form = userInput \<longrightarrow>
               predict H net form s = s\<lparr>alerts := alerts s @ [InvalidInput key]\<rparr>"
    by (auto simp: predict_def predictBody_invalid [OF k])
  ultimately show ?thesis
    by blast
qed

lemma formWithoutSeats_validate:
  "validateInput (collectInput decimalHost formWithoutSeats) = Some ''seats''"
  by (simp add: collectInput_def formWithoutSeats_def invalidValue_def decimalHost_simps)

theorem predict_rejects_invalid_input_witness:
  "(\<exists>e\<in>set (collectInput decimalHost formWithoutSeats). invalidValue (snd e))
   \<and> isModelReady readyApp \<and> \<not> isTraining readyApp
   \<and> predict decimalHost constNet formWithoutSeats readyApp = readyApp\<lparr>alerts := [InvalidInput ''seats'']\<rparr>"
proof -
  let ?u = "collectInput decimalHost formWithoutSeats"
  from validateInput_Some [OF formWithoutSeats_validate]
  have i: "\<exists>e\<in>set ?u. invalidValue (snd e)"
    by force
  have r: "isModelReady readyApp" "\<not> isTraining readyApp" "alerts readyApp = []"
    by (simp_all add: readyApp_def freshApp_def)
  from predict_rejects_invalid_input [OF i, of decimalHost readyApp constNet formWithoutSeats]
  obtain before key v after where u: "?u = before @ (key, v) # after" and "invalidValue v"
    and b: "\<forall>e\<in>set before. \<not> invalidValue (snd e)"
    and p: "predict decimalHost constNet formWithoutSeats readyApp
              = readyApp\<lparr>alerts := alerts readyApp @ [InvalidInput key]\<rparr>"
    using r by blast
  have "predict decimalHost constNet formWithoutSeats readyApp
          = readyApp\<lparr>alerts := alerts readyApp @ [InvalidInput ''seats'']\<rparr>"
    using r by (simp add: predict_def predictBody_invalid [OF formWithoutSeats_validate])
  with p i r show ?thesis
    by simp
qed

subsection \<open>Runs that succeed\<close>

lemma makeTensors_no_fault:
  "\<forall>k. \<not> tensorFault env k \<Longrightarrow> fst (snd (makeTensors env k n s)) = False"
  by (induction n arbitrary: k s) (simp_all add: split_beta)

lemma fitLoop_succeeds:
  assumes "isTraining s" and "fitFault env = None"
    and "\<forall>j\<in>{e..<e + n}. numericLogs (epochLogs env j)"
  shows "fst (fitLoop (onEpochEnd H net env) env e n s) = None"
  using assms(1,3)
proof (induction n arbitrary: e s)
  case 0
  then show ?case by simp
next
  case (Suc n)
  from Suc.prems(2) have "numericLogs (epochLogs env e)"
    by simp
  then obtain l v m where lg: "epochLogs env e = Logs l v m"
    and num: "isNumber l \<and> isNumber v \<and> isNumber m"
    by (cases "epochLogs env e") (auto simp: numericLogs_def)
  let ?s1 = "s\<lparr>trainingHistory := pushLogs l v m (trainingHistory s)\<rparr>"
  have "isTraining ?s1"
    using Suc.prems(1) by simp
  moreover have "\<forall>j\<in>{Suc e..<Suc e + n}. numericLogs (epochLogs env j)"
    using Suc.prems(2) by simp
  ultimately have "fst (fitLoop (onEpochEnd H net env) env (Suc e) n ?s1) = None"
    by (rule Suc.IH)
  then show ?case
    using Suc.prems(1) lg num assms(2) by (simp add: onEpochEnd_training split_beta split: option.split)
qed

lemma fitLoop_application_succeeds:
  assumes "isTraining s" and "fitFault env = None"
    and "\<forall>j\<in>{e..<e + n}. completeLogs (epochLogs env j) \<longrightarrow> numericLogs (epochLogs env j)"
  shows "fst (fitLoop (onEpochEnd_application H net env) env e n s) = None"
  using assms(1,3)
proof (induction n arbitrary: e s)
  case 0
  then show ?case by simp
next
  case (Suc n)
  have rest: "\<forall>j\<in>{Suc e..<Suc e + n}. completeLogs (epochLogs env j) \<longrightarrow> numericLogs (epochLogs env j)"
    using Suc.prems(2) by simp
  show ?case
  proof (cases "completeLogs (epochLogs env e)")
    case False
    with Suc.IH [OF Suc.prems(1) rest] assms(2) show ?thesis
      by (simp add: onEpochEnd_application_def)
  next
    case True
    with Suc.prems(2) have "numericLogs (epochLogs env e)"
      by simp
    then obtain l v m where lg: "epochLogs env e = Logs l v m"
      and num: "isNumber l \<and> isNumber v \<and> isNumber m"
      by (cases "epochLogs env e") (auto simp: numericLogs_def)
    let ?s1 = "s\<lparr>trainingHistory := pushLogs l v m (trainingHistory s)\<rparr>"
    have "isTraining ?s1"
      using Suc.prems(1) by simp
    from Suc.IH [OF this rest] show ?thesis
      using Suc.prems(1) lg num assms(2) True
      by (simp add: onEpochEnd_application_def onEpochEnd_training split_beta split: option.split)
  qed
qed

lemma evaluateAndDispose_succeeds:
  "\<not> evaluateFault env \<Longrightarrow> \<not> dataFault env 0 \<Longrightarrow> \<not> dataFault env 1 \<Longrightarrow>
   fst (evaluateAndDispose env ts s) = None"
  by (simp add: evaluateAndDispose_def split_beta)

lemma trainModel_succeeds:
  assumes "modelBuilt s" and "quiet env"
    and "\<forall>j<totalEpochs. numericLogs (epochLogs env j)"
  shows "fst (trainModel H net env data s) = None"
proof -
  let ?s0 = "s\<lparr>isTraining := True, trainingHistory := emptyHistory\<rparr>"
  obtain ts f s1 where m: "makeTensors env 0 4 ?s0 = (ts, f, s1)"
    by (cases "makeTensors env 0 4 ?s0")
  from makeTensors_props [OF m] have t1: "isTraining s1"
    by simp
  from makeTensors_no_fault [of env 0 4 ?s0] assms(2) m have f: "\<not> f"
    by (simp add: quiet_def)
  obtain r s2 where fit: "fitLoop (onEpochEnd H net env) env 0 totalEpochs s1 = (r, s2)"
    by (cases "fitLoop (onEpochEnd H net env) env 0 totalEpochs s1")
  from fitLoop_succeeds [OF t1, of env 0 totalEpochs H net] assms(2,3) fit have r: "r = None"
    by (simp add: quiet_def)
  from evaluateAndDispose_succeeds [of env ts s2] assms(2)
  have "fst (evaluateAndDispose env ts s2) = None"
    by (simp add: quiet_def)
  with assms(1) m f fit r show ?thesis
    by (simp add: trainModel_def split_beta split: option.split)
qed

lemma trainModel_application_succeeds:
  assumes "modelBuilt s" and "quiet env"
    and "\<forall>j<totalEpochs_application. completeLogs (epochLogs env j) \<longrightarrow> numericLogs (epochLogs env j)"
    and "trainFeatures data \<noteq> []" and "length (trainTargets data) = length (trainFeatures data)"
    and "testFeatures data \<noteq> []" and "length (testTargets data) = length (testFeatures data)"
  shows "fst (trainModel_application H net env data s) = None"
proof -
  let ?s0 = "s\<lparr>isTraining := True, trainingHistory := emptyHistory\<rparr>"
  obtain ts f s1 where m: "makeTensors env 0 4 ?s0 = (ts, f, s1)"
    by (cases "makeTensors env 0 4 ?s0")
  from makeTensors_props [OF m] have t1: "isTraining s1"
    by simp
  from makeTensors_no_fault [of env 0 4 ?s0] assms(2) m have f: "\<not> f"
    by (simp add: quiet_def)
  obtain r s2 where fit: "fitLoop (onEpochEnd_application H net env) env 0 totalEpochs_application s1 = (r, s2)"
    by (cases "fitLoop (onEpochEnd_application H net env) env 0 totalEpochs_application s1")
  from fitLoop_application_succeeds [OF t1, of env 0 totalEpochs_application H net] assms(2,3) fit
  have r: "r = None"
    by (simp add: quiet_def)
  from evaluateAndDispose_succeeds [of env ts s2] assms(2)
  have "fst (evaluateAndDispose env ts s2) = None"
    by (simp add: quiet_def)
  with assms(1,4,5,6,7) m f fit r show ?thesis
    by (simp add: trainModel_application_def split_beta split: option.split)
qed

subsection \<open>The training history\<close>

lemma appendRecords_length:
  "length (loss (appendRecords h ls)) = length (loss h) + length ls"
  "length (valLoss (appendRecords h ls)) = length (valLoss h) + length ls"
  "length (mae (appendRecords h ls)) = length (mae h) + length ls"
  by (simp_all add: appendRecords_def)

lemma filter_all: "\<forall>x\<in>set xs. P x \<Longrightarrow> filter P xs = xs"
  by (induction xs) simp_all

lemma numericLogs_complete: "numericLogs lg \<Longrightarrow> completeLogs lg"
  by (cases lg) (auto simp: numericLogs_def completeLogs_def isNumber_def)

lemma onEpochEnd_numeric:
  assumes "isTraining s" and "numericLogs lg"
  shows "onEpochEnd H net env epoch lg s =
           (None, s\<lparr>trainingHistory := appendRecords (trainingHistory s) [lg]\<rparr>)"
    and "onEpochEnd_application H net env epoch lg s =
           (None, s\<lparr>trainingHistory := appendRecords (trainingHistory s) [lg]\<rparr>)"
proof -
  from assms(2) obtain l v m where lg: "lg = Logs l v m" and n: "isNumber l \<and> isNumber v \<and> isNumber m"
    by (cases lg) (auto simp: numericLogs_def)
  have p: "pushLogs l v m h = appendRecords h [Logs l v m]" for h
    using appendRecords_push [of l v m h "[]"] by (simp add: appendRecords_Nil)
  show a: "onEpochEnd H net env epoch lg s =
           (None, s\<lparr>trainingHistory := appendRecords (trainingHistory s) [lg]\<rparr>)"
    using n by (simp add: onEpochEnd_training [OF assms(1)] lg p)
  show "onEpochEnd_application H net env epoch lg s =
           (None, s\<lparr>trainingHistory := appendRecords (trainingHistory s) [lg]\<rparr>)"
    using numericLogs_complete [OF assms(2)] by (simp add: onEpochEnd_application_def a)
qed

text \<open>
  C8.  \<^verbatim>\<open>fit\<close> is called with validation data and the metric \<^verbatim>\<open>mae\<close>, and the library then
  passes to \<^verbatim>\<open>onEpochEnd\<close>, at the end of every epoch, logs that hold numbers for \<^verbatim>\<open>loss\<close>,
  \<^verbatim>\<open>val_loss\<close> and \<^verbatim>\<open>mae\<close>.  With such a library, in both variants: a training run on a
  built model starts from the empty history whatever the history was; the callback of an
  epoch appends exactly the record of this epoch; the history after the run is one record
  per epoch, in epoch order, for the epochs that were reached; and after a run that
  succeeds these are all the epochs, 200 records in \<^verbatim>\<open>src/app.js\<close> and 100 in
  \<^verbatim>\<open>src/application/app.js\<close>.
\<close>

theorem history_one_record_per_epoch:
  assumes "modelBuilt s" and "\<forall>j. numericLogs (epochLogs env j)"
  shows "(\<exists>k\<le>totalEpochs.
            trainingHistory (snd (trainModel H net env data s)) =
              appendRecords emptyHistory (map (epochLogs env) [0..<k])
          \<and> (fst (trainModel H net env data s) = None \<longrightarrow> k = totalEpochs))
       \<and> (fst (trainModel H net env data s) = None \<longrightarrow>
            length (loss (trainingHistory (snd (trainModel H net env data s)))) = totalEpochs
          \<and> length (valLoss (trainingHistory (snd (trainModel H net env data s)))) = totalEpochs
          \<and> length (mae (trainingHistory (snd (trainModel H net env data s)))) = totalEpochs)
       \<and> (\<exists>k\<le>totalEpochs_application.
            trainingHistory (snd (trainModel_application H net env data s)) =
              appendRecords emptyHistory (map (epochLogs env) [0..<k])
          \<and> (fst (trainModel_application H net env data s) = None \<longrightarrow> k = totalEpochs_application))
       \<and> (fst (trainModel_application H net env data s) = None \<longrightarrow>
            length (loss (trainingHistory (snd (trainModel_application H net env data s))))
              = totalEpochs_application
          \<and> length (valLoss (trainingHistory (snd (trainModel_application H net env data s))))
              = totalEpochs_application
          \<and> length (mae (trainingHistory (snd (trainModel_application H net env data s))))
              = totalEpochs_application)
       \<and> (\<forall>epoch s'. isTraining s' \<longrightarrow>
            onEpochEnd H net env epoch (epochLogs env epoch) s' =
              (None, s'\<lparr>trainingHistory := appendRecords (trainingHistory s') [epochLogs env epoch]\<rparr>)
          \<and> onEpochEnd_application H net env epoch (epochLogs env epoch) s' =
              (None, s'\<lparr>trainingHistory := appendRecords (trainingHistory s') [epochLogs env epoch]\<rparr>))"
proof -
  from trainModel_summary [OF assms(1), of H net env data]
  obtain k where k: "k \<le> totalEpochs"
    and h: "trainingHistory (snd (trainModel H net env data s)) =
              appendRecords emptyHistory (map (epochLogs env) [0..<k])"
    and r: "fst (trainModel H net env data s) = None \<longrightarrow> k = totalEpochs"
    by (elim exE conjE)
  from trainModel_application_summary [OF assms(1), of H net env data]
  obtain k' where k': "k' \<le> totalEpochs_application"
    and h0: "trainingHistory (snd (trainModel_application H net env data s)) =
              appendRecords emptyHistory (filter completeLogs (map (epochLogs env) [0..<k']))"
    and r': "fst (trainModel_application H net env data s) = None \<longrightarrow> k' = totalEpochs_application"
    by (elim exE conjE)
  have "filter completeLogs (map (epochLogs env) [0..<k']) = map (epochLogs env) [0..<k']"
    using assms(2) by (intro filter_all) (simp add: numericLogs_complete)
  with h0 have h': "trainingHistory (snd (trainModel_application H net env data s)) =
              appendRecords emptyHistory (map (epochLogs env) [0..<k'])"
    by simp
  have A: "\<exists>k\<le>totalEpochs.
            trainingHistory (snd (trainModel H net env data s)) =
              appendRecords emptyHistory (map (epochLogs env) [0..<k])
          \<and> (fst (trainModel H net env data s) = None \<longrightarrow> k = totalEpochs)"
    by (intro exI [of _ k] conjI k h r)
  have B: "fst (trainModel H net env data s) = None \<longrightarrow>
            length (loss (trainingHistory (snd (trainModel H net env data s)))) = totalEpochs
          \<and> length (valLoss (trainingHistory (snd (trainModel H net env data s)))) = totalEpochs
          \<and> length (mae (trainingHistory (snd (trainModel H net env data s)))) = totalEpochs"
    using r by (simp add: h appendRecords_length emptyHistory_def)
  have C: "\<exists>k\<le>totalEpochs_application.
            trainingHistory (snd (trainModel_application H net env data s)) =
              appendRecords emptyHistory (map (epochLogs env) [0..<k])
          \<and> (fst (trainModel_application H net env data s) = None \<longrightarrow> k = totalEpochs_application)"
    by (intro exI [of _ k'] conjI k' h' r')
  have D: "fst (trainModel_application H net env data s) = None \<longrightarrow>
            length (loss (trainingHistory (snd (trainModel_application H net env data s))))
              = totalEpochs_application
          \<and> length (valLoss (trainingHistory (snd (trainModel_application H net env data s))))
              = totalEpochs_application
          \<and> length (mae (trainingHistory (snd (trainModel_application H net env data s))))
              = totalEpochs_application"
    using r' by (simp add: h' appendRecords_length emptyHistory_def)
  have E: "\<forall>epoch s'. isTraining s' \<longrightarrow>
            onEpochEnd H net env epoch (epochLogs env epoch) s' =
              (None, s'\<lparr>trainingHistory := appendRecords (trainingHistory s') [epochLogs env epoch]\<rparr>)
          \<and> onEpochEnd_application H net env epoch (epochLogs env epoch) s' =
              (None, s'\<lparr>trainingHistory := appendRecords (trainingHistory s') [epochLogs env epoch]\<rparr>)"
    using assms(2) by (intro allI impI conjI onEpochEnd_numeric) simp_all
  show ?thesis
    by (intro conjI A B C D E)
qed

lemma quietLibrary_quiet: "quiet quietLibrary"
  by (simp add: quiet_def quietLibrary_def)

lemma goodLogs_numeric: "numericLogs goodLogs" "completeLogs goodLogs"
  by (simp_all add: numericLogs_def completeLogs_def goodLogs_def isNumber_def)

theorem history_one_record_per_epoch_witness:
  "modelBuilt (freshApp\<lparr>trainingHistory := appendRecords emptyHistory [goodLogs]\<rparr>)
   \<and> (\<forall>j. numericLogs (epochLogs quietLibrary j))
   \<and> fst (trainModel decimalHost constNet quietLibrary sampleData
            (freshApp\<lparr>trainingHistory := appendRecords emptyHistory [goodLogs]\<rparr>)) = None
   \<and> length (loss (trainingHistory (snd (trainModel decimalHost constNet quietLibrary sampleData
            (freshApp\<lparr>trainingHistory := appendRecords emptyHistory [goodLogs]\<rparr>))))) = totalEpochs
   \<and> fst (trainModel_application decimalHost constNet quietLibrary sampleData
            (freshApp\<lparr>trainingHistory := appendRecords emptyHistory [goodLogs]\<rparr>)) = None
   \<and> length (loss (trainingHistory (snd (trainModel_application decimalHost constNet quietLibrary sampleData
            (freshApp\<lparr>trainingHistory := appendRecords emptyHistory [goodLogs]\<rparr>)))))
       = totalEpochs_application"
proof -
  let ?s = "freshApp\<lparr>trainingHistory := appendRecords emptyHistory [goodLogs]\<rparr>"
  have m: "modelBuilt ?s"
    by (simp add: freshApp_def)
  have g: "epochLogs quietLibrary j = goodLogs" for j
    by (simp add: quietLibrary_def)
  have n: "\<forall>j. numericLogs (epochLogs quietLibrary j)"
    by (simp add: g goodLogs_numeric)
  have a: "fst (trainModel decimalHost constNet quietLibrary sampleData ?s) = None"
    by (rule trainModel_succeeds [OF m quietLibrary_quiet]) (simp add: g goodLogs_numeric)
  have b: "fst (trainModel_application decimalHost constNet quietLibrary sampleData ?s) = None"
    by (rule trainModel_application_succeeds [OF m quietLibrary_quiet])
       (simp_all add: g goodLogs_numeric sampleData_def)
  note t = history_one_record_per_epoch [OF m n, of decimalHost constNet sampleData]
  from t [THEN conjunct2, THEN conjunct1] a
  have l: "length (loss (trainingHistory (snd (trainModel decimalHost constNet quietLibrary sampleData ?s))))
          = totalEpochs"
    by simp
  from t [THEN conjunct2, THEN conjunct2, THEN conjunct2, THEN conjunct1] b
  have l': "length (loss (trainingHistory (snd (trainModel_application decimalHost constNet quietLibrary
          sampleData ?s)))) = totalEpochs_application"
    by simp
  show ?thesis
    by (intro conjI m n a b l l')
qed

subsection \<open>Tensors after a failed run\<close>

lemma freshApp_tensors:
  "makeTensors quietLibrary 0 4 (freshApp\<lparr>isTraining := True, trainingHistory := emptyHistory\<rparr>) =
     ([0, 1, 2, 3], False,
      freshApp\<lparr>isTraining := True, trainingHistory := emptyHistory,
               liveTensors := [0, 1, 2, 3], nextTensor := 4\<rparr>)"
  by (simp add: eval_nat_numeral quietLibrary_def tensor_def freshApp_def)

lemma evaluateAndDispose_data_fault:
  "\<not> evaluateFault env \<Longrightarrow> dataFault env 0 \<or> dataFault env 1 \<Longrightarrow>
   evaluateAndDispose env ts s =
     (Some (LibraryError ''data''),
      s\<lparr>liveTensors := liveTensors s @ [nextTensor s, Suc (nextTensor s)],
        nextTensor := Suc (Suc (nextTensor s))\<rparr>)"
  by (simp add: evaluateAndDispose_def tensor_def)

lemma faultyRead_results_leak:
  "fst (trainModel_application decimalHost constNet faultyReadLibrary sampleData freshApp)
     = Some (LibraryError ''data'')
   \<and> liveTensors (snd (trainModel_application decimalHost constNet faultyReadLibrary sampleData freshApp))
     = [4, 5]"
proof -
  let ?env = faultyReadLibrary
  let ?s1 = "freshApp\<lparr>isTraining := True, trainingHistory := emptyHistory,
                      liveTensors := [0, Suc 0, 2, 3], nextTensor := 4\<rparr>"
  let ?F = "fitLoop (onEpochEnd_application decimalHost constNet ?env) ?env 0 totalEpochs_application ?s1"
  have m: "makeTensors ?env 0 4 (freshApp\<lparr>isTraining := True, trainingHistory := emptyHistory\<rparr>) =
     ([0, Suc 0, 2, 3], False, ?s1)"
    using freshApp_tensors by (simp add: faultyReadLibrary_def eval_nat_numeral quietLibrary_def tensor_def freshApp_def)
  have t: "isTraining ?s1"
    by simp
  have g: "epochLogs ?env j = goodLogs" for j
    by (simp add: faultyReadLibrary_def quietLibrary_def)
  have ff: "fitFault ?env = None"
    by (simp add: faultyReadLibrary_def quietLibrary_def)
  have r: "fst ?F = None"
    by (rule fitLoop_application_succeeds [OF t ff]) (simp add: g goodLogs_numeric)
  from fitLoop_onEpochEnd_application
    [OF t, where n = totalEpochs_application and e = 0 and H = decimalHost and net = constNet and env = ?env]
  obtain h where s2: "snd ?F = ?s1\<lparr>trainingHistory := h\<rparr>"
    by (auto simp del: upt_Suc)
  have F: "?F = (None, ?s1\<lparr>trainingHistory := h\<rparr>)"
    using r s2 by (simp add: prod_eq_iff)
  have ev: "\<not> evaluateFault ?env" "dataFault ?env 0 \<or> dataFault ?env 1"
    by (simp_all add: faultyReadLibrary_def quietLibrary_def)
  have mb: "modelBuilt freshApp"
    by (simp add: freshApp_def)
  show ?thesis
    by (simp add: trainModel_application_def mb m F evaluateAndDispose_data_fault [OF ev] sampleData_def dispose_def)
qed

text \<open>
  C4 fails on the code.  In \<^verbatim>\<open>src/app.js\<close> a run in which \<^verbatim>\<open>fit\<close> raises (here at the fourth
  epoch) ends with the four data tensors still allocated: the \<^verbatim>\<open>catch\<close> block disposes
  nothing.  \<^verbatim>\<open>src/application/app.js\<close> disposes them on the same run; it leaves the two
  results of \<^verbatim>\<open>evaluate\<close> allocated when reading them raises.
\<close>

theorem trainModel_leaks_on_failure:
  "liveTensors freshApp = []
   \<and> fst (trainModel decimalHost constNet faultyFitLibrary sampleData freshApp) = Some (LibraryError ''fit'')
   \<and> liveTensors (snd (trainModel decimalHost constNet faultyFitLibrary sampleData freshApp)) = [0, 1, 2, 3]
   \<and> fst (trainModel_application decimalHost constNet faultyFitLibrary sampleData freshApp)
       = Some (LibraryError ''fit'')
   \<and> liveTensors (snd (trainModel_application decimalHost constNet faultyFitLibrary sampleData freshApp)) = []
   \<and> fst (trainModel_application decimalHost constNet faultyReadLibrary sampleData freshApp)
       = Some (LibraryError ''data'')
   \<and> liveTensors (snd (trainModel_application decimalHost constNet faultyReadLibrary sampleData freshApp))
       = [4, 5]"
proof -
  have "liveTensors freshApp = []"
    by (simp add: freshApp_def)
  moreover have "fst (trainModel H net faultyFitLibrary sampleData freshApp)
      = Some (LibraryError ''fit'')" for H net
    by code_simp
  moreover have "liveTensors (snd (trainModel H net faultyFitLibrary sampleData freshApp))
      = [0, 1, 2, 3]" for H net
    by code_simp
  moreover have "fst (trainModel_application H net faultyFitLibrary sampleData freshApp)
      = Some (LibraryError ''fit'')" for H net
    by code_simp
  moreover have "liveTensors (snd (trainModel_application H net faultyFitLibrary sampleData freshApp))
      = []" for H net
    by code_simp
  ultimately show ?thesis
    using faultyRead_results_leak by (intro conjI) simp_all
qed

theorem trainModel_leaks_on_failure_witness:
  "liveTensors (snd (trainModel decimalHost constNet faultyFitLibrary sampleData freshApp))
     \<noteq> liveTensors freshApp
   \<and> liveTensors (snd (trainModel_application decimalHost constNet faultyFitLibrary sampleData freshApp))
     = liveTensors freshApp
   \<and> liveTensors (snd (trainModel_application decimalHost constNet faultyReadLibrary sampleData freshApp))
     \<noteq> liveTensors freshApp"
  using trainModel_leaks_on_failure by simp

end
